theory Spec2Isabelle
  imports Main "HOL-Library.Word"
begin

section \<open>Report analyzer (app.py): a shallow embedding\<close>

text \<open>
  The script is a request handler around three libraries (PDF rasterization, image
  handling, a remote multimodal model) and the local file system.  The embedding keeps the
  functions of \<^verbatim>\<open>app.py\<close> under their own names.  What the script gets from outside is a
  parameter: the record \<open>env\<close> holds the outcome of every library call that the script
  cannot control, and the record \<open>world\<close> is the state the script changes (files on disk,
  the calls of \<^verbatim>\<open>os.remove\<close>, the temporary names drawn so far).  An exception is a value
  \<open>Inl e\<close> of a sum type, so every \<^verbatim>\<open>raise\<close>, \<^verbatim>\<open>except\<close> and \<^verbatim>\<open>finally\<close> of the source is a
  branch of a definition.  Console output (\<^verbatim>\<open>print\<close>) changes no result and is left out.
\<close>

subsection \<open>Text: Python strings and \<^verbatim>\<open>clean_result\<close>\<close>

text \<open>
  A Python \<^verbatim>\<open>str\<close> is a sequence of Unicode code points, here natural numbers.  File paths
  and the base64 text are ASCII and are kept as \<open>string\<close>.
\<close>

type_synonym ustring = "nat list"

definition ustr :: "string \<Rightarrow> ustring" where
  "ustr s = map of_char s"

text \<open>The character class \<^verbatim>\<open>[^\x00-\x7F]\<close> of the pattern in \<^verbatim>\<open>clean_result\<close>.\<close>

definition non_ascii :: "nat \<Rightarrow> bool" where
  "non_ascii c = (\<not> c \<le> 127)"

text \<open>
  \<^verbatim>\<open>re.sub(r"[^\x00-\x7F]+", "", result)\<close>: scanning from the left, every maximal run of
  characters of the class is replaced by the empty string; every other character is copied.
\<close>

function re_sub_non_ascii :: "ustring \<Rightarrow> ustring" where
  "re_sub_non_ascii [] = []"
| "re_sub_non_ascii (c # cs) =
     (if non_ascii c then re_sub_non_ascii (dropWhile non_ascii cs)
      else c # re_sub_non_ascii cs)"
  by pat_completeness auto
termination
  by (relation "measure length") (auto simp: length_dropWhile_le less_Suc_eq_le)

text \<open>
  \<^verbatim>\<open>str.isspace\<close> for one code point: the Unicode white space that \<^verbatim>\<open>str.strip()\<close> removes
  when called without an argument.
\<close>

definition py_isspace :: "nat \<Rightarrow> bool" where
  "py_isspace c = (c \<in> set ([9, 10, 11, 12, 13, 28, 29, 30, 31, 32, 133, 160, 5760]
       @ [8192 ..< 8203] @ [8232, 8233, 8239, 8287, 12288]))"

definition py_strip :: "ustring \<Rightarrow> ustring" where
  "py_strip s = rev (dropWhile py_isspace (rev (dropWhile py_isspace s)))"

definition clean_result :: "ustring \<Rightarrow> ustring" where
  "clean_result result = (let cleaned_result = re_sub_non_ascii result in py_strip cleaned_result)"

subsection \<open>Images and the compositor\<close>

text \<open>
  A PIL image as far as the script reads it: its size and its pixels.  A pixel is an RGB
  triple; \<^verbatim>\<open>Image.new("RGB", size)\<close> is black.
\<close>

type_synonym rgb = "nat \<times> nat \<times> nat"

record image =
  width :: nat
  height :: nat
  pixel :: "nat \<Rightarrow> nat \<Rightarrow> rgb"

definition Image_new :: "nat \<Rightarrow> nat \<Rightarrow> image" where
  "Image_new w h = \<lparr>width = w, height = h, pixel = (\<lambda>x y. (0, 0, 0))\<rparr>"

text \<open>
  \<^verbatim>\<open>canvas.paste(im, (x0, y0))\<close>: the pixels of \<open>im\<close> replace those of the canvas in the box
  whose upper left corner is \<open>(x0, y0)\<close>; what falls outside the canvas is clipped.
\<close>

definition paste :: "image \<Rightarrow> image \<Rightarrow> nat \<times> nat \<Rightarrow> image" where
  "paste canvas im box =
     (case box of (x0, y0) \<Rightarrow>
        canvas\<lparr>pixel := (\<lambda>x y.
          if x0 \<le> x \<and> x < x0 + width im \<and> y0 \<le> y \<and> y < y0 + height im
             \<and> x < width canvas \<and> y < height canvas
          then pixel im (x - x0) (y - y0)
          else pixel canvas x y)\<rparr>)"

text \<open>Lines 77 to 81: the loop that pastes every page and advances \<^verbatim>\<open>y_offset\<close>.\<close>

fun paste_pages :: "image \<Rightarrow> nat \<Rightarrow> image list \<Rightarrow> image \<times> nat" where
  "paste_pages composite_image y_offset [] = (composite_image, y_offset)"
| "paste_pages composite_image y_offset (im # images) =
     paste_pages (paste composite_image im (0, y_offset)) (y_offset + height im) images"

subsection \<open>Exceptions\<close>

text \<open>
  Every exception of the model is an instance of \<^verbatim>\<open>Exception\<close>.  The script tells
  \<^verbatim>\<open>OSError\<close> from the rest (in \<^verbatim>\<open>cleanup_temp_files\<close>); the message is what \<^verbatim>\<open>str(e)\<close>
  returns.
\<close>

datatype exn_kind = ValueError | TypeError | OSError | OtherException

datatype exn = Exn exn_kind ustring

fun str_exn :: "exn \<Rightarrow> ustring" where
  "str_exn (Exn k msg) = msg"

text \<open>\<^verbatim>\<open>max\<close> of a sequence: the empty sequence raises \<^verbatim>\<open>ValueError\<close>.\<close>

fun py_max :: "nat list \<Rightarrow> exn + nat" where
  "py_max [] = Inl (Exn ValueError (ustr ''max() arg is an empty sequence''))"
| "py_max (x # xs) = Inr (fold max xs x)"

text \<open>
  Lines 73 to 81 of \<^verbatim>\<open>combine_images_vertically\<close>: the composite of the opened images.
\<close>

definition composite_of :: "image list \<Rightarrow> exn + image" where
  "composite_of images =
     (case py_max (map width images) of
        Inl e \<Rightarrow> Inl e
      | Inr combined_width \<Rightarrow>
          (let combined_height = sum_list (map height images);
               composite_image = Image_new combined_width combined_height
           in Inr (fst (paste_pages composite_image 0 images))))"

subsection \<open>Base64\<close>

text \<open>
  \<^verbatim>\<open>base64.b64encode\<close> and \<^verbatim>\<open>base64.b64decode\<close> belong to the Python library; they are
  written out here as RFC 4648 defines the standard encoding: three octets are cut into
  four groups of six bits, each group is a character of the alphabet, and a last block of
  one or two octets is padded with \<open>=\<close>.
\<close>

type_synonym byte = "8 word"

definition b64_alphabet :: string where
  "b64_alphabet = ''ABCDEFGHIJKLMNOPQRSTUVWXYZabcdefghijklmnopqrstuvwxyz0123456789+/''"

definition b64_char :: "nat \<Rightarrow> char" where
  "b64_char i = b64_alphabet ! i"

definition sextets :: "nat \<Rightarrow> nat \<Rightarrow> nat \<Rightarrow> nat \<times> nat \<times> nat \<times> nat" where
  "sextets a b c = (a div 4, (a mod 4) * 16 + b div 16, (b mod 16) * 4 + c div 64, c mod 64)"

definition octets :: "nat \<Rightarrow> nat \<Rightarrow> nat \<Rightarrow> nat \<Rightarrow> nat \<times> nat \<times> nat" where
  "octets s1 s2 s3 s4 = (s1 * 4 + s2 div 16, (s2 mod 16) * 16 + s3 div 4, (s3 mod 4) * 64 + s4)"

fun b64encode :: "byte list \<Rightarrow> string" where
  "b64encode [] = []"
| "b64encode [a] =
     (case sextets (unat a) 0 0 of
        (s1, s2, s3, s4) \<Rightarrow> [b64_char s1, b64_char s2, CHR ''='', CHR ''=''])"
| "b64encode [a, b] =
     (case sextets (unat a) (unat b) 0 of
        (s1, s2, s3, s4) \<Rightarrow> [b64_char s1, b64_char s2, b64_char s3, CHR ''=''])"
| "b64encode (a # b # c # rest) =
     (case sextets (unat a) (unat b) (unat c) of
        (s1, s2, s3, s4) \<Rightarrow> [b64_char s1, b64_char s2, b64_char s3, b64_char s4])
     @ b64encode rest"

definition b64_index :: "char \<Rightarrow> nat option" where
  "b64_index c = map_of (zip b64_alphabet [0 ..< 64]) c"

fun b64decode :: "string \<Rightarrow> byte list option" where
  "b64decode [] = Some []"
| "b64decode (c1 # c2 # c3 # c4 # rest) =
     (case (b64_index c1, b64_index c2) of
        (Some s1, Some s2) \<Rightarrow>
          (if c3 = CHR ''='' then
             (if c4 = CHR ''='' \<and> rest = []
              then (case octets s1 s2 0 0 of (b1, b2, b3) \<Rightarrow> Some [of_nat b1])
              else None)
           else
             (case b64_index c3 of
                None \<Rightarrow> None
              | Some s3 \<Rightarrow>
                  (if c4 = CHR ''='' then
                     (if rest = []
                      then (case octets s1 s2 s3 0 of (b1, b2, b3) \<Rightarrow> Some [of_nat b1, of_nat b2])
                      else None)
                   else
                     (case b64_index c4 of
                        None \<Rightarrow> None
                      | Some s4 \<Rightarrow>
                          (case b64decode rest of
                             None \<Rightarrow> None
                           | Some bs \<Rightarrow>
                               (case octets s1 s2 s3 s4 of
                                  (b1, b2, b3) \<Rightarrow> Some (of_nat b1 # of_nat b2 # of_nat b3 # bs)))))))
      | _ \<Rightarrow> None)"
| "b64decode _ = None"

subsection \<open>The outside world\<close>

text \<open>
  A file holds either raw bytes (the uploaded document) or an image that \<^verbatim>\<open>image.save\<close>
  wrote as PNG.  The bytes of such a file are given by \<open>png_encode\<close>.
\<close>

type_synonym path = string

datatype fdata = Raw "byte list" | Png image

text \<open>The uploaded file (\<^verbatim>\<open>FileStorage\<close>): its name and its content.\<close>

record upload =
  filename :: string
  content :: "byte list"

text \<open>The six prompt constants; their text is passed to the model and not read by the script.\<close>

datatype prompt =
  HEALTH_SUMMARY_PROMPT | GLANCE_PARAMETERS_PROMPT | POTENTIAL_RISKS_PROMPT
  | DIET_RECOMMENDATIONS_PROMPT | CONSOLIDATED_GUIDANCE_PROMPT | FINAL_SUMMARY_PROMPT

text \<open>
  What the script cannot control:
  \<^item> \<open>UPLOAD_FOLDER\<close>: \<^verbatim>\<open>tempfile.gettempdir()\<close>;
  \<^item> \<open>candidate_names\<close>: the \<open>n\<close>-th value of \<^verbatim>\<open>next(tempfile._get_candidate_names())\<close>;
  \<^item> \<open>convert_from_path\<close>: what pdf2image makes of a file with the given bytes, at 300 dpi:
    the page images in page order, or an exception;
  \<^item> \<open>write_error\<close>: the exception that writing to a path raises, if any (disk full, no
    permission);
  \<^item> \<open>failed_write_leaves\<close>: what a write that raises leaves at the path: \<^verbatim>\<open>None\<close> when
    the disk is as it was (the file could not be opened), or the content of the file
    that was opened, truncated, and written in part;
  \<^item> \<open>remove_error\<close>: the message of the \<^verbatim>\<open>OSError\<close> that \<^verbatim>\<open>os.remove\<close> raises for a file
    that exists, if any (no permission, file in use); the file then stays;
  \<^item> \<open>png_encode\<close>: the bytes of the PNG file of an image;
  \<^item> \<open>generate_content\<close>: the answer of the remote model to an image and a prompt: an
    exception, or a response whose \<^verbatim>\<open>text\<close> is a string or \<^verbatim>\<open>None\<close>.
\<close>

record env =
  UPLOAD_FOLDER :: path
  candidate_names :: "nat \<Rightarrow> string"
  convert_from_path :: "byte list \<Rightarrow> exn + image list"
  write_error :: "path \<Rightarrow> exn option"
  failed_write_leaves :: "path \<Rightarrow> fdata option"
  remove_error :: "path \<Rightarrow> ustring option"
  png_encode :: "image \<Rightarrow> byte list"
  generate_content :: "image \<Rightarrow> prompt \<Rightarrow> exn + ustring option"

text \<open>
  What the script changes: the files on disk, the list of paths \<^verbatim>\<open>os.remove\<close> was called
  with (in call order), and how many temporary names were drawn.
\<close>

record world =
  files :: "path \<rightharpoonup> fdata"
  removed :: "path list"
  names_drawn :: nat

definition next_candidate_name :: "env \<Rightarrow> world \<Rightarrow> string \<times> world" where
  "next_candidate_name env w =
     (candidate_names env (names_drawn w), w\<lparr>names_drawn := Suc (names_drawn w)\<rparr>)"

definition write_file :: "env \<Rightarrow> path \<Rightarrow> fdata \<Rightarrow> world \<Rightarrow> (exn + unit) \<times> world" where
  "write_file env p d w =
     (case write_error env p of
        Some e \<Rightarrow>
          (Inl e,
           case failed_write_leaves env p of
             None \<Rightarrow> w
           | Some left \<Rightarrow> w\<lparr>files := (files w)(p \<mapsto> left)\<rparr>)
      | None \<Rightarrow> (Inr (), w\<lparr>files := (files w)(p \<mapsto> d)\<rparr>))"

text \<open>
  \<^verbatim>\<open>os.remove\<close>: the call is recorded; a missing file raises \<^verbatim>\<open>FileNotFoundError\<close>, which
  is an \<^verbatim>\<open>OSError\<close>; a file that exists is deleted, unless the system refuses, which
  raises an \<^verbatim>\<open>OSError\<close> too and leaves the file.
\<close>

definition os_remove :: "env \<Rightarrow> path \<Rightarrow> world \<Rightarrow> (exn + unit) \<times> world" where
  "os_remove env p w =
     (let w' = w\<lparr>removed := removed w @ [p]\<rparr>
      in if p \<in> dom (files w)
         then (case remove_error env p of
                 None \<Rightarrow> (Inr (), w'\<lparr>files := (files w)(p := None)\<rparr>)
               | Some msg \<Rightarrow> (Inl (Exn OSError msg), w'))
         else (Inl (Exn OSError (ustr ''No such file or directory'')), w'))"

text \<open>\<^verbatim>\<open>os.path.join\<close> of two components (posixpath).\<close>

definition os_path_join :: "path \<Rightarrow> string \<Rightarrow> path" where
  "os_path_join a b =
     (if take 1 b = ''/'' then b
      else if a = [] \<or> last a = CHR ''/'' then a @ b
      else a @ ''/'' @ b)"

text \<open>Decimal digits of a number, as the f-string writes \<^verbatim>\<open>{i + 1}\<close>.\<close>

function str_nat :: "nat \<Rightarrow> string" where
  "str_nat n = (if n < 10 then [''0123456789'' ! n]
                else str_nat (n div 10) @ [''0123456789'' ! (n mod 10)])"
  by pat_completeness auto
termination
  by (relation "measure id") auto

declare str_nat.simps [simp del]

text \<open>
  \<^verbatim>\<open>Image.open\<close>: a missing file and a file that is no image raise (both exceptions are
  \<^verbatim>\<open>OSError\<close>s).
\<close>

definition Image_open :: "world \<Rightarrow> path \<Rightarrow> exn + image" where
  "Image_open w p =
     (case files w p of
        None \<Rightarrow> Inl (Exn OSError (ustr ''No such file or directory''))
      | Some (Raw bs) \<Rightarrow> Inl (Exn OSError (ustr ''cannot identify image file''))
      | Some (Png im) \<Rightarrow> Inr im)"

definition read_bytes :: "env \<Rightarrow> world \<Rightarrow> path \<Rightarrow> exn + byte list" where
  "read_bytes env w p =
     (case files w p of
        None \<Rightarrow> Inl (Exn OSError (ustr ''No such file or directory''))
      | Some (Raw bs) \<Rightarrow> Inr bs
      | Some (Png im) \<Rightarrow> Inr (png_encode env im))"

subsection \<open>\<^verbatim>\<open>pdf_to_images\<close>\<close>

text \<open>The truth value of a \<^verbatim>\<open>FileStorage\<close> is that of its file name; \<^verbatim>\<open>None\<close> is false.\<close>

fun truthy :: "upload option \<Rightarrow> bool" where
  "truthy None = False"
| "truthy (Some f) = (filename f \<noteq> [])"

text \<open>
  Lines 54 to 57: the loop over \<^verbatim>\<open>enumerate(images)\<close>.  The index \<open>i\<close> and the list
  \<^verbatim>\<open>image_paths\<close> built so far are arguments.  When a page cannot be saved the exception
  leaves the loop, and the list built so far is lost with it.
\<close>

text \<open>The f-string \<^verbatim>\<open>f"page_{i + 1}_{name}.png"\<close>.\<close>

definition page_file_name :: "nat \<Rightarrow> string \<Rightarrow> string" where
  "page_file_name i name = ''page_'' @ str_nat (i + 1) @ ''_'' @ name @ ''.png''"

fun save_pages ::
  "env \<Rightarrow> path \<Rightarrow> nat \<Rightarrow> image list \<Rightarrow> path list \<Rightarrow> world \<Rightarrow> (exn + path list) \<times> world" where
  "save_pages env output_folder i [] image_paths w = (Inr image_paths, w)"
| "save_pages env output_folder i (im # images) image_paths w =
     (case next_candidate_name env w of (name, w1) \<Rightarrow>
        (let image_path = os_path_join output_folder (page_file_name i name)
         in case write_file env image_path (Png im) w1 of
              (Inl e, w2) \<Rightarrow> (Inl e, w2)
            | (Inr u, w2) \<Rightarrow>
                save_pages env output_folder (i + 1) images (image_paths @ [image_path]) w2))"

declare save_pages.simps(2) [simp del]

text \<open>Lines 53 to 57: the body of the \<^verbatim>\<open>try\<close> statement.\<close>

definition rasterize_body ::
  "env \<Rightarrow> path \<Rightarrow> path \<Rightarrow> world \<Rightarrow> (exn + path list) \<times> world" where
  "rasterize_body env output_folder temp_pdf_path w =
     (case read_bytes env w temp_pdf_path of
        Inl e \<Rightarrow> (Inl e, w)
      | Inr bs \<Rightarrow>
          (case convert_from_path env bs of
             Inl e \<Rightarrow> (Inl e, w)
           | Inr images \<Rightarrow> save_pages env output_folder 0 images [] w))"

definition pdf_to_images ::
  "env \<Rightarrow> upload option \<Rightarrow> path \<Rightarrow> world \<Rightarrow> (exn + path list) \<times> world" where
  "pdf_to_images env pdf_file_storage output_folder w =
     (case pdf_file_storage of
        None \<Rightarrow> (Inl (Exn ValueError (ustr ''No PDF file provided.'')), w)
      | Some f \<Rightarrow>
          if \<not> truthy pdf_file_storage
          then (Inl (Exn ValueError (ustr ''No PDF file provided.'')), w)
          else
            (case next_candidate_name env w of (name, w1) \<Rightarrow>
               (let temp_pdf_path = os_path_join output_folder (name @ ''.pdf'')
                in case write_file env temp_pdf_path (Raw (content f)) w1 of
                     (Inl e, w2) \<Rightarrow> (Inl e, w2)
                   | (Inr u, w2) \<Rightarrow>
                       (case rasterize_body env output_folder temp_pdf_path w2 of
                          (r, w3) \<Rightarrow>
                            (case os_remove env temp_pdf_path w3 of
                               (Inl e, w4) \<Rightarrow> (Inl e, w4)
                             | (Inr u', w4) \<Rightarrow> (r, w4))))))"

subsection \<open>\<^verbatim>\<open>combine_images_vertically\<close>\<close>

text \<open>Line 72: the images are opened in order; the first failure raises.\<close>

fun open_images :: "world \<Rightarrow> path list \<Rightarrow> exn + image list" where
  "open_images w [] = Inr []"
| "open_images w (p # ps) =
     (case Image_open w p of
        Inl e \<Rightarrow> Inl e
      | Inr im \<Rightarrow> (case open_images w ps of Inl e \<Rightarrow> Inl e | Inr ims \<Rightarrow> Inr (im # ims)))"

text \<open>The f-string \<^verbatim>\<open>f"composite_{name}.png"\<close>.\<close>

definition composite_file_name :: "string \<Rightarrow> string" where
  "composite_file_name name = ''composite_'' @ name @ ''.png''"

text \<open>The result is the path of the composite, or \<^verbatim>\<open>None\<close> when there is no image.\<close>

definition combine_images_vertically ::
  "env \<Rightarrow> path list \<Rightarrow> path \<Rightarrow> world \<Rightarrow> (exn + path option) \<times> world" where
  "combine_images_vertically env image_paths output_folder w =
     (if image_paths = [] then (Inr None, w)
      else
        (case open_images w image_paths of
           Inl e \<Rightarrow> (Inl e, w)
         | Inr images \<Rightarrow>
             (case composite_of images of
                Inl e \<Rightarrow> (Inl e, w)
              | Inr composite_image \<Rightarrow>
                  (case next_candidate_name env w of (name, w1) \<Rightarrow>
                     (let composite_path = os_path_join output_folder (composite_file_name name)
                      in case write_file env composite_path (Png composite_image) w1 of
                           (Inl e, w2) \<Rightarrow> (Inl e, w2)
                         | (Inr u, w2) \<Rightarrow> (Inr (Some composite_path), w2))))))"

subsection \<open>\<^verbatim>\<open>cleanup_temp_files\<close>\<close>

text \<open>
  An entry of the list is a path or \<^verbatim>\<open>None\<close> (what \<^verbatim>\<open>combine_images_vertically\<close> may
  return).  \<^verbatim>\<open>os.remove(None)\<close> raises \<^verbatim>\<open>TypeError\<close>, which the handler for \<^verbatim>\<open>OSError\<close>
  does not catch; an \<^verbatim>\<open>OSError\<close> is caught and the loop goes on.
\<close>

fun cleanup_temp_files ::
  "env \<Rightarrow> path option list \<Rightarrow> world \<Rightarrow> (exn + unit) \<times> world" where
  "cleanup_temp_files env [] w = (Inr (), w)"
| "cleanup_temp_files env (None # paths) w =
     (Inl (Exn TypeError (ustr ''remove: path should be string, bytes or os.PathLike, not NoneType'')), w)"
| "cleanup_temp_files env (Some p # paths) w =
     (case os_remove env p w of
        (Inl (Exn OSError msg), w1) \<Rightarrow> cleanup_temp_files env paths w1
      | (Inl e, w1) \<Rightarrow> (Inl e, w1)
      | (Inr u, w1) \<Rightarrow> cleanup_temp_files env paths w1)"

subsection \<open>\<^verbatim>\<open>encode_image_to_base64\<close>\<close>

definition encode_image_to_base64 :: "env \<Rightarrow> path option \<Rightarrow> world \<Rightarrow> exn + string" where
  "encode_image_to_base64 env image_path w =
     (case image_path of
        None \<Rightarrow> Inl (Exn TypeError (ustr ''expected str, bytes or os.PathLike object, not NoneType''))
      | Some p \<Rightarrow>
          (case read_bytes env w p of
             Inl e \<Rightarrow> Inl e
           | Inr bs \<Rightarrow> Inr (''data:image/png;base64,'' @ b64encode bs)))"

subsection \<open>\<^verbatim>\<open>analyze_image\<close>\<close>

text \<open>Lines 119 to 132: the body of the \<^verbatim>\<open>try\<close> statement.\<close>

definition analyze_image_body ::
  "env \<Rightarrow> path option \<Rightarrow> prompt \<Rightarrow> world \<Rightarrow> exn + ustring" where
  "analyze_image_body env image_path section_prompt w =
     (case (case image_path of
              None \<Rightarrow> Inl (Exn OtherException (ustr ''NoneType object has no attribute read''))
            | Some p \<Rightarrow> Image_open w p) of
        Inl e \<Rightarrow> Inl e
      | Inr img \<Rightarrow>
          (case generate_content env img section_prompt of
             Inl e \<Rightarrow> Inl e
           | Inr None \<Rightarrow> Inl (Exn TypeError (ustr ''expected string or bytes-like object''))
           | Inr (Some text) \<Rightarrow> Inr (clean_result text)))"

text \<open>Lines 134 to 136: any exception becomes the returned text.\<close>

definition analyze_image :: "env \<Rightarrow> path option \<Rightarrow> prompt \<Rightarrow> world \<Rightarrow> ustring" where
  "analyze_image env image_path section_prompt w =
     (case analyze_image_body env image_path section_prompt w of
        Inl e \<Rightarrow> ustr ''Error: Could not analyze report. API issue: '' @ str_exn e
      | Inr cleaned \<Rightarrow> cleaned)"

subsection \<open>The route \<^verbatim>\<open>/analyze\<close>\<close>

text \<open>
  What the handler returns: the redirect to the form, the page with the six results and
  the composite as a data URI, or the page with an error message.
\<close>

datatype response =
  Redirect_index string
  | Render_results "(string \<times> ustring) list" string
  | Render_error ustring

text \<open>
  Lines 224 to 245: the body of the \<^verbatim>\<open>try\<close> statement.  It returns the response or the
  exception, and with either the list \<^verbatim>\<open>temp_paths\<close> as it stands when the body is left.
\<close>

definition analyze_body ::
  "env \<Rightarrow> upload option \<Rightarrow> world \<Rightarrow> (exn + response) \<times> path option list \<times> world" where
  "analyze_body env uploaded_file w =
     (case pdf_to_images env uploaded_file (UPLOAD_FOLDER env) w of
        (Inl e, w1) \<Rightarrow> (Inl e, [], w1)
      | (Inr image_paths, w1) \<Rightarrow>
          (let temp_paths = map Some image_paths
           in case combine_images_vertically env image_paths (UPLOAD_FOLDER env) w1 of
                (Inl e, w2) \<Rightarrow> (Inl e, temp_paths, w2)
              | (Inr composite_image_path, w2) \<Rightarrow>
                  (let temp_paths = temp_paths @ [composite_image_path];
                       results =
                         [(''health_summary'',
                             analyze_image env composite_image_path HEALTH_SUMMARY_PROMPT w2),
                          (''glance_parameters'',
                             analyze_image env composite_image_path GLANCE_PARAMETERS_PROMPT w2),
                          (''potential_risks'',
                             analyze_image env composite_image_path POTENTIAL_RISKS_PROMPT w2),
                          (''diet_recommendations'',
                             analyze_image env composite_image_path DIET_RECOMMENDATIONS_PROMPT w2),
                          (''consolidated_guidance'',
                             analyze_image env composite_image_path CONSOLIDATED_GUIDANCE_PROMPT w2),
                          (''final_summary'',
                             analyze_image env composite_image_path FINAL_SUMMARY_PROMPT w2)]
                   in case encode_image_to_base64 env composite_image_path w2 of
                        Inl e \<Rightarrow> (Inl e, temp_paths, w2)
                      | Inr composite_image_b64 \<Rightarrow>
                          (Inr (Render_results results composite_image_b64), temp_paths, w2))))"

text \<open>
  The handler: the check of the upload, the \<^verbatim>\<open>try\<close> body, the \<^verbatim>\<open>except Exception\<close> clause
  and the \<^verbatim>\<open>finally\<close> clause.  An exception raised by the \<^verbatim>\<open>finally\<close> clause replaces the
  response.
\<close>

definition analyze :: "env \<Rightarrow> upload option \<Rightarrow> world \<Rightarrow> (exn + response) \<times> world" where
  "analyze env uploaded_file w =
     (if \<not> truthy uploaded_file \<or> map_option filename uploaded_file = Some ''''
      then (Inr (Redirect_index ''No file selected.''), w)
      else
        (case analyze_body env uploaded_file w of
           (r, temp_paths, w1) \<Rightarrow>
             (let resp =
                    (case r of
                       Inl e \<Rightarrow>
                         Render_error (ustr ''An error occurred during processing: '' @ str_exn e)
                     | Inr page \<Rightarrow> page)
              in case cleanup_temp_files env temp_paths w1 of
                   (Inl e, w2) \<Rightarrow> (Inl e, w2)
                 | (Inr u, w2) \<Rightarrow> (Inr resp, w2))))"

subsection \<open>Example inputs\<close>

text \<open>
  Concrete inputs at which the theorems below are instantiated: a document of two pages,
  a document with no page, a file that is no PDF, a temporary directory, and a model
  service that is unreachable.
\<close>

definition white_page :: image where
  "white_page = \<lparr>width = 2, height = 3, pixel = (\<lambda>x y. (255, 255, 255))\<rparr>"

definition grey_page :: image where
  "grey_page = \<lparr>width = 1, height = 2, pixel = (\<lambda>x y. (128, 128, 128))\<rparr>"

definition report_pdf :: upload where
  "report_pdf = \<lparr>filename = ''report.pdf'', content = [37, 80, 68, 70]\<rparr>"

definition blank_pdf :: upload where
  "blank_pdf = \<lparr>filename = ''blank.pdf'', content = [37, 80, 68, 70, 48]\<rparr>"

definition notes_txt :: upload where
  "notes_txt = \<lparr>filename = ''notes.txt'', content = [104, 105]\<rparr>"

definition example_env :: env where
  "example_env =
     \<lparr>UPLOAD_FOLDER = ''/tmp'',
      candidate_names = (\<lambda>n. ''tmp'' @ str_nat n),
      convert_from_path = (\<lambda>bs.
        if bs = [37, 80, 68, 70] then Inr [white_page, grey_page]
        else if bs = [37, 80, 68, 70, 48] then Inr []
        else Inl (Exn OtherException (ustr ''Unable to get page count.''))),
      write_error = (\<lambda>p. None),
      failed_write_leaves = (\<lambda>p. None),
      remove_error = (\<lambda>p. None),
      png_encode = (\<lambda>im. [137, 80, 78, 71]),
      generate_content = (\<lambda>im pr. Inl (Exn OtherException (ustr ''503 UNAVAILABLE'')))\<rparr>"

definition disk_full_env :: env where
  "disk_full_env =
     example_env\<lparr>write_error := (\<lambda>p.
        if p = ''/tmp/page_2_tmp2.png''
        then Some (Exn OSError (ustr ''No space left on device'')) else None)\<rparr>"


text \<open>The disk is full once two bytes of the upload are saved.\<close>

definition cut_off_env :: env where
  "cut_off_env =
     example_env\<lparr>write_error := (\<lambda>p.
        if p = ''/tmp/tmp0.pdf''
        then Some (Exn OSError (ustr ''No space left on device'')) else None),
      failed_write_leaves := (\<lambda>p.
        if p = ''/tmp/tmp0.pdf'' then Some (Raw [37, 80]) else None)\<rparr>"

definition empty_world :: world where
  "empty_world = \<lparr>files = Map.empty, removed = [], names_drawn = 0\<rparr>"

definition man_world :: world where
  "man_world = \<lparr>files = [''/tmp/man.png'' \<mapsto> Raw [77, 97, 110]], removed = [], names_drawn = 0\<rparr>"

text \<open>The disk once the two pages of the report are saved and three names are drawn.\<close>

definition pages_world :: world where
  "pages_world =
     \<lparr>files = [''/tmp/page_1_tmp1.png'' \<mapsto> Png white_page,
               ''/tmp/page_2_tmp2.png'' \<mapsto> Png grey_page],
      removed = [''/tmp/tmp0.pdf''], names_drawn = 3\<rparr>"

section \<open>Properties\<close>

subsection \<open>\<^verbatim>\<open>clean_result\<close>\<close>

lemma re_sub_non_ascii_filter: "re_sub_non_ascii s = filter (\<lambda>c. c \<le> 127) s"
proof (induction s rule: re_sub_non_ascii.induct)
  case 1
  then show ?case by simp
next
  case (2 c cs)
  have run: "filter (\<lambda>c. c \<le> 127) (dropWhile non_ascii cs) = filter (\<lambda>c. c \<le> 127) cs"
    by (induction cs) (auto simp: non_ascii_def)
  show ?case using 2 run by (auto simp: non_ascii_def)
qed

lemma py_strip_Nil: "py_strip [] = []"
  by (simp add: py_strip_def)

lemma py_strip_decomp:
  "\<exists>pre suf. s = pre @ py_strip s @ suf \<and> list_all py_isspace pre \<and> list_all py_isspace suf"
proof -
  let ?u = "dropWhile py_isspace s"
  have lead: "s = takeWhile py_isspace s @ ?u" by simp
  have trail: "?u = py_strip s @ rev (takeWhile py_isspace (rev ?u))"
  proof -
    have "rev ?u = takeWhile py_isspace (rev ?u) @ dropWhile py_isspace (rev ?u)" by simp
    then show ?thesis unfolding py_strip_def
      by (metis rev_append rev_rev_ident)
  qed
  have sp_front: "list_all py_isspace (takeWhile py_isspace s)"
    by (simp add: list_all_iff) (meson set_takeWhileD)
  have sp_back: "list_all py_isspace (rev (takeWhile py_isspace (rev ?u)))"
    by (simp add: list_all_iff) (meson set_takeWhileD)
  from lead trail
  have "s = takeWhile py_isspace s @ py_strip s @ rev (takeWhile py_isspace (rev ?u))"
    by metis
  with sp_front sp_back show ?thesis by blast
qed

lemma py_strip_ends:
  assumes "py_strip s \<noteq> []"
  shows "\<not> py_isspace (hd (py_strip s))" and "\<not> py_isspace (last (py_strip s))"
proof -
  let ?u = "dropWhile py_isspace s"
  let ?v = "dropWhile py_isspace (rev ?u)"
  from assms have v: "?v \<noteq> []" by (simp add: py_strip_def)
  then have "\<not> py_isspace (hd ?v)" by (rule hd_dropWhile)
  then show "\<not> py_isspace (last (py_strip s))" using v by (simp add: py_strip_def last_rev)
  have "?u \<noteq> []" using v by (metis dropWhile.simps(1) rev.simps(1))
  then have hu: "\<not> py_isspace (hd ?u)" by (rule hd_dropWhile)
  obtain t where t: "?u = py_strip s @ t"
    by (metis py_strip_def rev_append rev_rev_ident takeWhile_dropWhile_id)
  then have "hd ?u = hd (py_strip s)" using assms by (metis hd_append2)
  with hu show "\<not> py_isspace (hd (py_strip s))" by simp
qed

lemma py_strip_idem: "py_strip (py_strip s) = py_strip s"
proof (cases "py_strip s = []")
  case True
  with py_strip_Nil show ?thesis by simp
next
  case False
  let ?t = "py_strip s"
  from py_strip_ends[OF False]
  have h: "\<not> py_isspace (hd ?t)" and l: "\<not> py_isspace (last ?t)" by auto
  have a: "dropWhile py_isspace ?t = ?t" using False h by (cases ?t) auto
  have "\<not> py_isspace (hd (rev ?t))" using l by (simp add: hd_rev)
  then have b: "dropWhile py_isspace (rev ?t) = rev ?t" using False
    by (cases "rev ?t") auto
  show ?thesis unfolding py_strip_def[of ?t] a b by simp
qed

text \<open>
  Claim C6.  \<^verbatim>\<open>clean_result\<close> removes exactly the code points above 127 and the white space
  at both ends of what is left, and keeps everything else in order: the ASCII characters
  of the input, in their order, are the result with a block of white space before it and
  one after it, and the result itself neither starts nor ends with white space.  (The two
  blocks are leading and trailing in the text that remains once the non-ASCII characters
  are gone, which is the order in which the function works.)
\<close>

theorem clean_result_keeps_ascii_interior:
  "\<exists>pre suf. filter (\<lambda>c. c \<le> 127) s = pre @ clean_result s @ suf
      \<and> list_all py_isspace pre \<and> list_all py_isspace suf
      \<and> list_all (\<lambda>c. c \<le> 127) (clean_result s)
      \<and> (clean_result s = []
          \<or> (\<not> py_isspace (hd (clean_result s)) \<and> \<not> py_isspace (last (clean_result s))))"
proof -
  let ?a = "filter (\<lambda>c. c \<le> 127) s"
  have cr: "clean_result s = py_strip ?a"
    by (simp add: clean_result_def re_sub_non_ascii_filter)
  obtain pre suf where d: "?a = pre @ py_strip ?a @ suf"
    and p: "list_all py_isspace pre" and q: "list_all py_isspace suf"
    using py_strip_decomp[of ?a] by blast
  have "set (py_strip ?a) \<subseteq> set ?a"
  proof -
    have "set ?a = set pre \<union> set (py_strip ?a) \<union> set suf"
      using arg_cong[OF d, of set] by (simp add: Un_assoc)
    then show ?thesis by blast
  qed
  then have asc: "list_all (\<lambda>c. c \<le> 127) (py_strip ?a)"
    by (auto simp: list_all_iff)
  have ends: "py_strip ?a = []
      \<or> (\<not> py_isspace (hd (py_strip ?a)) \<and> \<not> py_isspace (last (py_strip ?a)))"
    using py_strip_ends[of ?a] by blast
  from d p q asc ends show ?thesis unfolding cr by blast
qed

theorem clean_result_keeps_ascii_interior_witness:
  "clean_result [32, 233, 32, 72, 105, 32, 8212, 33, 10, 160] = [72, 105, 32, 33]
   \<and> (\<exists>pre suf. filter (\<lambda>c. c \<le> 127) [32, 233, 32, 72, 105, 32, 8212, 33, 10, 160 :: nat]
         = pre @ clean_result [32, 233, 32, 72, 105, 32, 8212, 33, 10, 160] @ suf
      \<and> list_all py_isspace pre \<and> list_all py_isspace suf)"
proof -
  have v: "clean_result [32, 233, 32, 72, 105, 32, 8212, 33, 10, 160] = [72, 105, 32, 33]"
    by (simp add: clean_result_def py_strip_def py_isspace_def non_ascii_def)
  from clean_result_keeps_ascii_interior[of "[32, 233, 32, 72, 105, 32, 8212, 33, 10, 160]"]
  show ?thesis using v by metis
qed

text \<open>
  Claim C7.  \<^verbatim>\<open>clean_result\<close> is idempotent: cleaning a cleaned text changes nothing.
\<close>

theorem clean_result_idempotent: "clean_result (clean_result s) = clean_result s"
proof -
  let ?a = "filter (\<lambda>c. c \<le> 127) s"
  have cr: "\<And>t. clean_result t = py_strip (filter (\<lambda>c. c \<le> 127) t)"
    by (simp add: clean_result_def re_sub_non_ascii_filter)
  obtain pre suf where d: "?a = pre @ py_strip ?a @ suf"
    using py_strip_decomp[of ?a] by blast
  have "set (py_strip ?a) \<subseteq> set ?a"
  proof -
    have "set ?a = set pre \<union> set (py_strip ?a) \<union> set suf"
      using arg_cong[OF d, of set] by (simp add: Un_assoc)
    then show ?thesis by blast
  qed
  then have "filter (\<lambda>c. c \<le> 127) (py_strip ?a) = py_strip ?a"
    by (auto simp: filter_id_conv)
  then show ?thesis by (simp add: cr py_strip_idem)
qed

subsection \<open>Base64\<close>

lemma b64_alphabet_length: "length b64_alphabet = 64"
  by (simp add: b64_alphabet_def)

lemma b64_alphabet_distinct: "distinct b64_alphabet"
  by (simp add: b64_alphabet_def)

lemma b64_index_char: "i < 64 \<Longrightarrow> b64_index (b64_char i) = Some i"
proof -
  assume i: "i < 64"
  have "map_of (zip b64_alphabet [0 ..< 64]) (b64_alphabet ! i) = Some ([0 ..< 64] ! i)"
    by (rule map_of_zip_nth) (use i in \<open>simp_all add: b64_alphabet_length b64_alphabet_distinct\<close>)
  with i show ?thesis by (simp add: b64_index_def b64_char_def)
qed

lemma b64_char_not_pad: "i < 64 \<Longrightarrow> b64_char i \<noteq> CHR ''=''"
proof -
  assume i: "i < 64"
  then have "b64_char i \<in> set b64_alphabet"
    by (simp add: b64_char_def b64_alphabet_length)
  moreover have "CHR ''='' \<notin> set b64_alphabet" by (simp add: b64_alphabet_def)
  ultimately show ?thesis by metis
qed

lemma sextets_bound:
  assumes "a < 256" "b < 256" "c < 256" "sextets a b c = (s1, s2, s3, s4)"
  shows "s1 < 64" "s2 < 64" "s3 < 64" "s4 < 64"
  using assms unfolding sextets_def by auto

lemma octets_sextets:
  assumes "a < 256" "b < 256" "c < 256" "sextets a b c = (s1, s2, s3, s4)"
  shows "octets s1 s2 s3 s4 = (a, b, c)"
  using assms unfolding sextets_def octets_def by auto

lemma octets_sextets1:
  assumes "a < 256" "sextets a 0 0 = (s1, s2, s3, s4)"
  shows "fst (octets s1 s2 0 0) = a"
  using assms unfolding sextets_def octets_def by auto

lemma octets_sextets2:
  assumes "a < 256" "b < 256" "sextets a b 0 = (s1, s2, s3, s4)"
  shows "\<exists>z. octets s1 s2 s3 0 = (a, b, z)"
  using assms unfolding sextets_def octets_def by auto


lemma byte_unat_less: "unat (a :: byte) < 256"
  using unsigned_less[of a] by simp

lemma b64decode_b64encode: "b64decode (b64encode bs) = Some bs"
proof (induction bs rule: b64encode.induct)
  case 1
  then show ?case by simp
next
  case (2 a)
  obtain s1 s2 s3 s4 where sx: "sextets (unat a) 0 0 = (s1, s2, s3, s4)"
    by (metis prod_cases4)
  have z: "(0::nat) < 256" by simp
  note b = sextets_bound[OF byte_unat_less z z sx]
  have "fst (octets s1 s2 0 0) = unat a"
    by (rule octets_sextets1[OF byte_unat_less sx])
  then obtain y z where o: "octets s1 s2 0 0 = (unat a, y, z)"
    by (metis fst_conv prod_cases3)
  show ?case
    by (simp add: sx o b b64_index_char b64_char_not_pad)
next
  case (3 a b)
  obtain s1 s2 s3 s4 where sx: "sextets (unat a) (unat b) 0 = (s1, s2, s3, s4)"
    by (metis prod_cases4)
  have z: "(0::nat) < 256" by simp
  note bd = sextets_bound[OF byte_unat_less byte_unat_less z sx]
  obtain z where o: "octets s1 s2 s3 0 = (unat a, unat b, z)"
    using octets_sextets2[OF byte_unat_less byte_unat_less sx] by blast
  show ?case
    by (simp add: sx o bd b64_index_char b64_char_not_pad)
next
  case (4 a b c rest)
  obtain s1 s2 s3 s4 where sx: "sextets (unat a) (unat b) (unat c) = (s1, s2, s3, s4)"
    by (metis prod_cases4)
  note bd = sextets_bound[OF byte_unat_less byte_unat_less byte_unat_less sx]
  have o: "octets s1 s2 s3 s4 = (unat a, unat b, unat c)"
    by (rule octets_sextets[OF byte_unat_less byte_unat_less byte_unat_less sx])
  show ?case
    using 4 by (simp add: sx o bd b64_index_char b64_char_not_pad)
qed

text \<open>
  Claim C10.  For a file whose bytes are \<open>B\<close>, \<^verbatim>\<open>encode_image_to_base64\<close> returns the text
  \<^verbatim>\<open>data:image/png;base64,\<close> followed by the standard base64 encoding of \<open>B\<close>; dropping
  that prefix and decoding what is left gives \<open>B\<close> back.
\<close>

theorem encode_image_to_base64_roundtrip:
  assumes "read_bytes env w p = Inr B"
  shows "\<exists>s. encode_image_to_base64 env (Some p) w = Inr s
           \<and> s = ''data:image/png;base64,'' @ b64encode B
           \<and> b64decode (drop (length ''data:image/png;base64,'') s) = Some B"
  using assms by (simp add: encode_image_to_base64_def b64decode_b64encode)

theorem encode_image_to_base64_roundtrip_witness:
  "read_bytes example_env man_world ''/tmp/man.png'' = Inr [77, 97, 110]
   \<and> encode_image_to_base64 example_env (Some ''/tmp/man.png'') man_world
       = Inr ''data:image/png;base64,TWFu''
   \<and> b64decode ''TWFu'' = Some [77, 97, 110]"
proof -
  have h: "read_bytes example_env man_world ''/tmp/man.png'' = Inr [77, 97, 110]"
    by (simp add: read_bytes_def man_world_def)
  have e: "b64encode [77, 97, 110] = ''TWFu''"
    by (simp add: sextets_def b64_char_def b64_alphabet_def)
  from encode_image_to_base64_roundtrip[OF h] h e show ?thesis by simp
qed

subsection \<open>The compositor\<close>

lemma paste_pages_width: "width (fst (paste_pages c y ims)) = width c"
  by (induction ims arbitrary: c y) (simp_all add: paste_def)

lemma paste_pages_height: "height (fst (paste_pages c y ims)) = height c"
  by (induction ims arbitrary: c y) (simp_all add: paste_def)

lemma paste_pages_offset: "snd (paste_pages c y ims) = y + sum_list (map height ims)"
  by (induction ims arbitrary: c y) simp_all

lemma paste_pages_above:
  "row < y \<Longrightarrow> pixel (fst (paste_pages c y ims)) x row = pixel c x row"
  by (induction ims arbitrary: c y) (simp_all add: paste_def)

lemma paste_pages_page:
  "i < length ims \<Longrightarrow> x < width (ims ! i) \<Longrightarrow> r < height (ims ! i) \<Longrightarrow> x < width c
   \<Longrightarrow> y + sum_list (map height ims) \<le> height c
   \<Longrightarrow> pixel (fst (paste_pages c y ims)) x (y + sum_list (map height (take i ims)) + r)
       = pixel (ims ! i) x r"
proof (induction ims arbitrary: c y i)
  case Nil
  then show ?case by simp
next
  case (Cons im ims)
  show ?case
  proof (cases i)
    case 0
    with Cons.prems have "pixel (fst (paste_pages (paste c im (0, y)) (y + height im) ims)) x (y + r)
        = pixel (paste c im (0, y)) x (y + r)"
      by (intro paste_pages_above) simp
    with 0 Cons.prems show ?thesis by (simp add: paste_def)
  next
    case (Suc j)
    with Cons.prems have
      "pixel (fst (paste_pages (paste c im (0, y)) (y + height im) ims)) x
         ((y + height im) + sum_list (map height (take j ims)) + r) = pixel (ims ! j) x r"
      by (intro Cons.IH) (simp_all add: paste_def)
    with Suc show ?thesis by (simp add: add.assoc)
  qed
qed

lemma paste_pages_margin:
  "i < length ims \<Longrightarrow> width (ims ! i) \<le> x \<Longrightarrow> r < height (ims ! i)
   \<Longrightarrow> pixel (fst (paste_pages c y ims)) x (y + sum_list (map height (take i ims)) + r)
       = pixel c x (y + sum_list (map height (take i ims)) + r)"
proof (induction ims arbitrary: c y i)
  case Nil
  then show ?case by simp
next
  case (Cons im ims)
  show ?case
  proof (cases i)
    case 0
    with Cons.prems have "pixel (fst (paste_pages (paste c im (0, y)) (y + height im) ims)) x (y + r)
        = pixel (paste c im (0, y)) x (y + r)"
      by (intro paste_pages_above) simp
    with 0 Cons.prems show ?thesis by (simp add: paste_def)
  next
    case (Suc j)
    with Cons.prems have
      "pixel (fst (paste_pages (paste c im (0, y)) (y + height im) ims)) x
         ((y + height im) + sum_list (map height (take j ims)) + r)
       = pixel (paste c im (0, y)) x ((y + height im) + sum_list (map height (take j ims)) + r)"
      by (intro Cons.IH) simp_all
    with Suc show ?thesis by (simp add: add.assoc paste_def)
  qed
qed

lemma py_max_Max: "xs \<noteq> [] \<Longrightarrow> py_max xs = Inr (Max (set xs))"
  by (cases xs) (simp_all add: Max.set_eq_fold[symmetric] del: set_simps)

lemma composite_of_spec:
  assumes "images \<noteq> []"
  shows "\<exists>c. composite_of images = Inr c
    \<and> width c = Max (set (map width images))
    \<and> height c = sum_list (map height images)
    \<and> (\<forall>i < length images. \<forall>r < height (images ! i). \<forall>x.
          pixel c x (sum_list (map height (take i images)) + r)
            = (if x < width (images ! i) then pixel (images ! i) x r else (0, 0, 0)))"
proof -
  let ?W = "Max (set (map width images))"
  let ?H = "sum_list (map height images)"
  let ?c = "fst (paste_pages (Image_new ?W ?H) 0 images)"
  have c: "composite_of images = Inr ?c"
    using assms by (simp add: composite_of_def py_max_Max)
  have w: "width ?c = ?W" by (simp add: paste_pages_width Image_new_def)
  have h: "height ?c = ?H" by (simp add: paste_pages_height Image_new_def)
  have px: "pixel ?c x (sum_list (map height (take i images)) + r)
            = (if x < width (images ! i) then pixel (images ! i) x r else (0, 0, 0))"
    if i: "i < length images" and r: "r < height (images ! i)" for i r x
  proof (cases "x < width (images ! i)")
    case True
    have "width (images ! i) \<le> ?W" using i by (intro Max_ge) auto
    with True have xc: "x < width (Image_new ?W ?H)" by (simp add: Image_new_def)
    have "pixel ?c x (0 + sum_list (map height (take i images)) + r) = pixel (images ! i) x r"
      using i True r xc by (intro paste_pages_page) (simp_all add: Image_new_def)
    with True show ?thesis by simp
  next
    case False
    then have "pixel ?c x (0 + sum_list (map height (take i images)) + r)
        = pixel (Image_new ?W ?H) x (0 + sum_list (map height (take i images)) + r)"
      using i r by (intro paste_pages_margin) simp_all
    with False show ?thesis by (simp add: Image_new_def)
  qed
  from c w h px show ?thesis by blast
qed

subsection \<open>Paths\<close>

text \<open>
  A joined path ends with its second component, so the path of the temporary PDF is
  never the path of a page image or of the composite.
\<close>

lemma os_path_join_suffix: "\<exists>pre. os_path_join a b = pre @ b"
proof -
  have "os_path_join a b = [] @ b \<or> os_path_join a b = a @ b \<or> os_path_join a b = (a @ ''/'') @ b"
    by (simp add: os_path_join_def)
  then show ?thesis by blast
qed

lemma pdf_not_png: "pre @ n @ ''.pdf'' \<noteq> s @ ''.png''"
proof
  assume "pre @ n @ ''.pdf'' = s @ ''.png''"
  then have "last (pre @ n @ ''.pdf'') = last (s @ ''.png'')" by simp
  then show False by simp
qed

lemma temp_pdf_not_png: "os_path_join a (n @ ''.pdf'') \<noteq> s @ ''.png''"
proof -
  obtain pre where "os_path_join a (n @ ''.pdf'') = pre @ n @ ''.pdf''"
    using os_path_join_suffix by blast
  then show ?thesis using pdf_not_png by simp
qed

lemma page_path_png: "\<exists>s. os_path_join a (page_file_name i n) = s @ ''.png''"
proof -
  obtain pre where "os_path_join a (page_file_name i n) = pre @ page_file_name i n"
    using os_path_join_suffix by blast
  then have "os_path_join a (page_file_name i n)
      = (pre @ ''page_'' @ str_nat (i + 1) @ ''_'' @ n) @ ''.png''"
    by (simp add: page_file_name_def)
  then show ?thesis by blast
qed

lemma save_pages_Cons:
  "save_pages env folder i (im # images) acc w =
     (case write_error env (os_path_join folder (page_file_name i (candidate_names env (names_drawn w)))) of
        Some e \<Rightarrow>
          (Inl e,
           case failed_write_leaves env
                  (os_path_join folder (page_file_name i (candidate_names env (names_drawn w)))) of
             None \<Rightarrow> w\<lparr>names_drawn := Suc (names_drawn w)\<rparr>
           | Some left \<Rightarrow>
               w\<lparr>names_drawn := Suc (names_drawn w),
                 files := (files w)(os_path_join folder
                   (page_file_name i (candidate_names env (names_drawn w))) \<mapsto> left)\<rparr>)
      | None \<Rightarrow>
          save_pages env folder (i + 1) images
            (acc @ [os_path_join folder (page_file_name i (candidate_names env (names_drawn w)))])
            (w\<lparr>names_drawn := Suc (names_drawn w),
               files := (files w)(os_path_join folder
                 (page_file_name i (candidate_names env (names_drawn w))) \<mapsto> Png im)\<rparr>))"
  by (simp add: save_pages.simps(2) next_candidate_name_def write_file_def Let_def
      split: option.splits)

lemma save_pages_frame:
  "save_pages env folder i images acc w = (r, w') \<Longrightarrow>
     removed w' = removed w
     \<and> (\<forall>p. (\<nexists>s. p = s @ ''.png'') \<longrightarrow> files w' p = files w p)
     \<and> (\<forall>p. p \<in> dom (files w) \<longrightarrow> p \<in> dom (files w'))"
proof (induction images arbitrary: i acc w r w')
  case Nil
  then show ?case by simp
next
  case (Cons im images)
  let ?path = "os_path_join folder (page_file_name i (candidate_names env (names_drawn w)))"
  let ?w1 = "w\<lparr>names_drawn := Suc (names_drawn w)\<rparr>"
  show ?case
  proof (cases "write_error env ?path")
    case (Some e)
    obtain s where s: "?path = s @ ''.png''" using page_path_png by blast
    from Some Cons.prems
    have "w' = ?w1 \<or> (\<exists>left. w' = ?w1\<lparr>files := (files w)(?path \<mapsto> left)\<rparr>)"
      by (auto simp: save_pages_Cons split: option.splits)
    then have "removed w' = removed w"
      and "\<forall>p. p \<noteq> ?path \<longrightarrow> files w' p = files w p"
      and "\<forall>p. p \<in> dom (files w) \<longrightarrow> p \<in> dom (files w')"
      by auto
    with s show ?thesis by metis
  next
    case None
    let ?w2 = "w\<lparr>names_drawn := Suc (names_drawn w), files := (files w)(?path \<mapsto> Png im)\<rparr>"
    from None Cons.prems
    have rec: "save_pages env folder (i + 1) images (acc @ [?path]) ?w2 = (r, w')"
      by (simp add: save_pages_Cons)
    note ih = Cons.IH[OF rec]
    obtain s where s: "?path = s @ ''.png''" using page_path_png by blast
    have a: "removed w' = removed w" using ih by simp
    have b: "files w' p = files w p" if "\<nexists>s. p = s @ ''.png''" for p
    proof -
      from that s have "p \<noteq> ?path" by metis
      moreover from ih that have "files w' p = files ?w2 p" by blast
      ultimately show ?thesis by simp
    qed
    have c: "p \<in> dom (files w')" if "p \<in> dom (files w)" for p
    proof -
      from that have "p \<in> dom (files ?w2)" by auto
      with ih show ?thesis by blast
    qed
    from a b c show ?thesis by blast
  qed
qed

text \<open>When no write fails, the loop saves every page, under the names drawn in order.\<close>

lemma save_pages_ok:
  fixes env folder
  defines "PP \<equiv> \<lambda>a b. os_path_join folder (page_file_name a (candidate_names env b))"
  assumes ok: "\<forall>p. write_error env p = None"
  shows "\<exists>w'. save_pages env folder i images acc w
            = (Inr (acc @ map (\<lambda>j. PP (i + j) (names_drawn w + j)) [0 ..< length images]), w')
     \<and> names_drawn w' = names_drawn w + length images
     \<and> removed w' = removed w
     \<and> (\<forall>p. p \<notin> set (map (\<lambda>j. PP (i + j) (names_drawn w + j)) [0 ..< length images])
            \<longrightarrow> files w' p = files w p)
     \<and> (\<forall>p \<in> set (map (\<lambda>j. PP (i + j) (names_drawn w + j)) [0 ..< length images]).
            \<exists>im. files w' p = Some (Png im))
     \<and> (distinct (map (\<lambda>j. PP (i + j) (names_drawn w + j)) [0 ..< length images])
          \<longrightarrow> (\<forall>j < length images.
                 files w' (PP (i + j) (names_drawn w + j)) = Some (Png (images ! j))))"
proof (induction images arbitrary: i acc w)
  case Nil
  then show ?case by simp
next
  case (Cons im images)
  define n where "n = names_drawn w"
  define p0 where "p0 = PP i n"
  define w2 where "w2 = w\<lparr>names_drawn := Suc n, files := (files w)(p0 \<mapsto> Png im)\<rparr>"
  define new' where "new' = map (\<lambda>j. PP (i + 1 + j) (names_drawn w2 + j)) [0 ..< length images]"
  define new where "new = map (\<lambda>j. PP (i + j) (names_drawn w + j)) [0 ..< length (im # images)]"
  have new: "new = p0 # new'"
    unfolding new_def new'_def p0_def w2_def n_def
    by (simp add: map_upt_Suc del: upt_Suc)
  have nth0: "PP (i + 0) (names_drawn w + 0) = p0" by (simp add: p0_def n_def)
  have nthS: "PP (i + Suc k) (names_drawn w + Suc k) = PP (i + 1 + k) (names_drawn w2 + k)" for k
    by (simp add: w2_def n_def)
  have w2: "names_drawn w2 = Suc (names_drawn w)" "removed w2 = removed w"
    "files w2 = (files w)(p0 \<mapsto> Png im)"
    by (simp_all add: w2_def n_def)
  have step: "save_pages env folder i (im # images) acc w
      = save_pages env folder (i + 1) images (acc @ [p0]) w2"
    using ok by (simp add: save_pages_Cons PP_def p0_def w2_def n_def)
  from Cons.IH[of "i + 1" "acc @ [p0]" w2]
  obtain w' where r: "save_pages env folder (i + 1) images (acc @ [p0]) w2
          = (Inr ((acc @ [p0]) @ new'), w')"
    and nd: "names_drawn w' = names_drawn w2 + length images"
    and rm: "removed w' = removed w2"
    and fr: "\<forall>p. p \<notin> set new' \<longrightarrow> files w' p = files w2 p"
    and png: "\<forall>p \<in> set new'. \<exists>im. files w' p = Some (Png im)"
    and ct: "distinct new' \<longrightarrow> (\<forall>j < length images.
              files w' (PP (i + 1 + j) (names_drawn w2 + j)) = Some (Png (images ! j)))"
    unfolding new'_def by blast
  have 1: "save_pages env folder i (im # images) acc w = (Inr (acc @ new), w')"
    unfolding step r new by simp
  have 2: "names_drawn w' = names_drawn w + length (im # images)" using nd w2 by simp
  have 3: "removed w' = removed w" using rm w2 by simp
  have 4: "files w' p = files w p" if "p \<notin> set new" for p
  proof -
    from that new have a: "p \<noteq> p0" and b: "p \<notin> set new'" by auto
    from fr b have "files w' p = files w2 p" by blast
    with a w2 show ?thesis by simp
  qed
  have 5: "\<exists>im. files w' p = Some (Png im)" if "p \<in> set new" for p
  proof (cases "p \<in> set new'")
    case True
    with png show ?thesis by blast
  next
    case False
    with that new have "p = p0" by auto
    moreover from fr False have "files w' p = files w2 p" by blast
    ultimately show ?thesis using w2 by simp
  qed
  have 6: "files w' (PP (i + j) (names_drawn w + j)) = Some (Png ((im # images) ! j))"
    if d: "distinct new" and j: "j < length (im # images)" for j
  proof (cases j)
    case 0
    from d new have "p0 \<notin> set new'" by simp
    with fr have "files w' p0 = files w2 p0" by blast
    with 0 w2 nth0 show ?thesis by simp
  next
    case (Suc k)
    from d new have "distinct new'" by simp
    with ct j Suc have "files w' (PP (i + 1 + k) (names_drawn w2 + k)) = Some (Png (images ! k))"
      by simp
    with Suc nthS[of k] show ?thesis by simp
  qed
  from 1 2 3 4 5 6 show ?case unfolding new_def by blast
qed

subsection \<open>\<^verbatim>\<open>pdf_to_images\<close>\<close>

lemma pdf_to_images_falsy:
  "\<not> truthy st \<Longrightarrow> pdf_to_images env st folder w = (Inl (Exn ValueError (ustr ''No PDF file provided.'')), w)"
  by (cases st) (simp_all add: pdf_to_images_def)

lemma pdf_to_images_write_fails:
  assumes "filename f \<noteq> []"
    and "write_error env (os_path_join folder (candidate_names env (names_drawn w) @ ''.pdf'')) = Some e"
  shows "pdf_to_images env (Some f) folder w =
     (Inl e,
      case failed_write_leaves env
             (os_path_join folder (candidate_names env (names_drawn w) @ ''.pdf'')) of
        None \<Rightarrow> w\<lparr>names_drawn := Suc (names_drawn w)\<rparr>
      | Some left \<Rightarrow>
          w\<lparr>names_drawn := Suc (names_drawn w),
            files := (files w)(os_path_join folder
              (candidate_names env (names_drawn w) @ ''.pdf'') \<mapsto> left)\<rparr>)"
  using assms
  by (simp add: pdf_to_images_def next_candidate_name_def write_file_def split: option.splits)

lemma rasterize_body_written:
  "rasterize_body env folder tp (w\<lparr>files := (files w)(tp \<mapsto> Raw bs)\<rparr>) =
     (case convert_from_path env bs of
        Inl e \<Rightarrow> (Inl e, w\<lparr>files := (files w)(tp \<mapsto> Raw bs)\<rparr>)
      | Inr images \<Rightarrow> save_pages env folder 0 images [] (w\<lparr>files := (files w)(tp \<mapsto> Raw bs)\<rparr>))"
  by (simp add: rasterize_body_def read_bytes_def)

lemma rasterize_body_frame:
  assumes "rasterize_body env folder tp w = (r, w')"
  shows "removed w' = removed w"
    and "(\<nexists>s. p = s @ ''.png'') \<Longrightarrow> files w' p = files w p"
proof -
  have "removed w' = removed w \<and> ((\<nexists>s. p = s @ ''.png'') \<longrightarrow> files w' p = files w p)"
  proof (cases "read_bytes env w tp")
    case (Inl e)
    with assms show ?thesis by (simp add: rasterize_body_def)
  next
    case (Inr bs)
    show ?thesis
    proof (cases "convert_from_path env bs")
      case (Inl e)
      with Inr assms show ?thesis by (simp add: rasterize_body_def)
    next
      case r: (Inr images)
      with Inr assms have "save_pages env folder 0 images [] w = (r, w')"
        by (simp add: rasterize_body_def)
      from save_pages_frame[OF this] show ?thesis by blast
    qed
  qed
  then show "removed w' = removed w"
    and "(\<nexists>s. p = s @ ''.png'') \<Longrightarrow> files w' p = files w p" by blast+
qed

lemma pdf_to_images_written:
  assumes f: "filename f \<noteq> []"
    and wr: "write_error env (os_path_join folder (candidate_names env (names_drawn w) @ ''.pdf'')) = None"
  defines "tp \<equiv> os_path_join folder (candidate_names env (names_drawn w) @ ''.pdf'')"
  defines "w2 \<equiv> w\<lparr>names_drawn := Suc (names_drawn w), files := (files w)(tp \<mapsto> Raw (content f))\<rparr>"
  shows "pdf_to_images env (Some f) folder w =
     (case remove_error env tp of
        None \<Rightarrow>
          (fst (rasterize_body env folder tp w2),
           (snd (rasterize_body env folder tp w2))
             \<lparr>removed := removed w @ [tp],
              files := (files (snd (rasterize_body env folder tp w2)))(tp := None)\<rparr>)
      | Some msg \<Rightarrow>
          (Inl (Exn OSError msg),
           (snd (rasterize_body env folder tp w2))\<lparr>removed := removed w @ [tp]\<rparr>))"
    and "files (snd (rasterize_body env folder tp w2)) tp = Some (Raw (content f))"
proof -
  obtain r w3 where b: "rasterize_body env folder tp w2 = (r, w3)" by (cases "rasterize_body env folder tp w2")
  have np: "\<nexists>s. tp = s @ ''.png''" unfolding tp_def using temp_pdf_not_png by blast
  from rasterize_body_frame[OF b] np have rm: "removed w3 = removed w2" and fl: "files w3 tp = files w2 tp"
    by blast+
  from fl have here: "files w3 tp = Some (Raw (content f))" by (simp add: w2_def)
  then have dom: "tp \<in> dom (files w3)" by blast
  have "pdf_to_images env (Some f) folder w =
      (case os_remove env tp w3 of (Inl e, w4) \<Rightarrow> (Inl e, w4) | (Inr u', w4) \<Rightarrow> (r, w4))"
    using f wr b
    by (simp add: pdf_to_images_def next_candidate_name_def write_file_def tp_def[symmetric] w2_def[symmetric])
  also have "\<dots> = (case remove_error env tp of
        None \<Rightarrow> (r, w3\<lparr>removed := removed w @ [tp], files := (files w3)(tp := None)\<rparr>)
      | Some msg \<Rightarrow> (Inl (Exn OSError msg), w3\<lparr>removed := removed w @ [tp]\<rparr>))"
    using dom rm by (simp add: os_remove_def w2_def split: option.splits)
  finally show "pdf_to_images env (Some f) folder w =
     (case remove_error env tp of
        None \<Rightarrow>
          (fst (rasterize_body env folder tp w2),
           (snd (rasterize_body env folder tp w2))
             \<lparr>removed := removed w @ [tp],
              files := (files (snd (rasterize_body env folder tp w2)))(tp := None)\<rparr>)
      | Some msg \<Rightarrow>
          (Inl (Exn OSError msg),
           (snd (rasterize_body env folder tp w2))\<lparr>removed := removed w @ [tp]\<rparr>))"
    using b by (simp split: option.splits)
  from here b show "files (snd (rasterize_body env folder tp w2)) tp = Some (Raw (content f))"
    by simp
qed

lemma rasterize_body_read:
  "files w tp = Some (Raw bs) \<Longrightarrow>
   rasterize_body env folder tp w =
     (case convert_from_path env bs of
        Inl e \<Rightarrow> (Inl e, w)
      | Inr images \<Rightarrow> save_pages env folder 0 images [] w)"
  by (simp add: rasterize_body_def read_bytes_def)

lemma pdf_to_images_convert_fails:
  assumes f: "filename f \<noteq> []"
    and wr: "write_error env (os_path_join folder (candidate_names env (names_drawn w) @ ''.pdf'')) = None"
    and cv: "convert_from_path env (content f) = Inl e"
    and rmv: "remove_error env (os_path_join folder (candidate_names env (names_drawn w) @ ''.pdf'')) = None"
  shows "pdf_to_images env (Some f) folder w =
     (Inl e, w\<lparr>names_drawn := Suc (names_drawn w),
               removed := removed w @ [os_path_join folder (candidate_names env (names_drawn w) @ ''.pdf'')],
               files := (files w)(os_path_join folder (candidate_names env (names_drawn w) @ ''.pdf'') := None)\<rparr>)"
proof -
  let ?tp = "os_path_join folder (candidate_names env (names_drawn w) @ ''.pdf'')"
  let ?w2 = "w\<lparr>names_drawn := Suc (names_drawn w), files := (files w)(?tp \<mapsto> Raw (content f))\<rparr>"
  have "rasterize_body env folder ?tp ?w2 = (Inl e, ?w2)"
    using cv rasterize_body_read[of ?w2 ?tp "content f" env folder] by simp
  with pdf_to_images_written(1)[OF f wr] rmv show ?thesis
    by simp
qed

lemma pdf_to_images_ok:
  fixes env folder w
  defines "tp \<equiv> os_path_join folder (candidate_names env (names_drawn w) @ ''.pdf'')"
  defines "PP \<equiv> \<lambda>j. os_path_join folder (page_file_name j (candidate_names env (names_drawn w + 1 + j)))"
  assumes f: "filename f \<noteq> []"
    and ok: "\<forall>p. write_error env p = None"
    and rmv: "remove_error env (os_path_join folder (candidate_names env (names_drawn w) @ ''.pdf'')) = None"
    and cv: "convert_from_path env (content f) = Inr images"
  shows "\<exists>w'. pdf_to_images env (Some f) folder w = (Inr (map PP [0 ..< length images]), w')
     \<and> names_drawn w' = names_drawn w + 1 + length images
     \<and> removed w' = removed w @ [tp]
     \<and> files w' tp = None
     \<and> (\<forall>p. p \<notin> set (map PP [0 ..< length images]) \<longrightarrow> p \<noteq> tp \<longrightarrow> files w' p = files w p)
     \<and> (\<forall>p \<in> set (map PP [0 ..< length images]). \<exists>im. files w' p = Some (Png im))
     \<and> (distinct (map PP [0 ..< length images])
          \<longrightarrow> (\<forall>j < length images. files w' (PP j) = Some (Png (images ! j))))"
proof -
  define w2 where "w2 = w\<lparr>names_drawn := Suc (names_drawn w), files := (files w)(tp \<mapsto> Raw (content f))\<rparr>"
  define paths where "paths = map PP [0 ..< length images]"
  have wr: "write_error env (os_path_join folder (candidate_names env (names_drawn w) @ ''.pdf'')) = None"
    using ok by simp
  have rb: "rasterize_body env folder tp w2 = save_pages env folder 0 images [] w2"
    using cv rasterize_body_read[of w2 tp "content f" env folder] by (simp add: w2_def)
  have PP: "PP = (\<lambda>j. os_path_join folder (page_file_name (0 + j) (candidate_names env (names_drawn w2 + j))))"
    by (simp add: PP_def w2_def)
  from save_pages_ok[OF ok, of folder 0 images "[]" w2]
  obtain w3 where sp: "save_pages env folder 0 images [] w2 = (Inr paths, w3)"
    and nd: "names_drawn w3 = names_drawn w2 + length images"
    and rm: "removed w3 = removed w2"
    and fr: "\<forall>p. p \<notin> set paths \<longrightarrow> files w3 p = files w2 p"
    and png: "\<forall>p \<in> set paths. \<exists>im. files w3 p = Some (Png im)"
    and ct: "distinct paths \<longrightarrow> (\<forall>j < length images. files w3 (PP j) = Some (Png (images ! j)))"
    unfolding paths_def PP by auto
  define w' where "w' = w3\<lparr>removed := removed w @ [tp], files := (files w3)(tp := None)\<rparr>"
  have tpn: "tp \<notin> set paths"
  proof
    assume "tp \<in> set paths"
    then obtain j where "tp = PP j" unfolding paths_def by auto
    moreover obtain s where "PP j = s @ ''.png''" unfolding PP_def using page_path_png by blast
    ultimately show False unfolding tp_def using temp_pdf_not_png by metis
  qed
  have 1: "pdf_to_images env (Some f) folder w = (Inr paths, w')"
    using pdf_to_images_written(1)[OF f wr] rb sp rmv
    by (simp add: tp_def[symmetric] w2_def[symmetric] w'_def)
  have 2: "names_drawn w' = names_drawn w + 1 + length images" using nd by (simp add: w'_def w2_def)
  have 3: "removed w' = removed w @ [tp]" by (simp add: w'_def)
  have 4: "files w' tp = None" by (simp add: w'_def)
  have 5: "files w' p = files w p" if "p \<notin> set paths" "p \<noteq> tp" for p
    using that fr by (simp add: w'_def w2_def)
  have 6: "\<exists>im. files w' p = Some (Png im)" if "p \<in> set paths" for p
  proof -
    from that tpn have "p \<noteq> tp" by blast
    with png that show ?thesis by (simp add: w'_def)
  qed
  have 7: "files w' (PP j) = Some (Png (images ! j))" if "distinct paths" "j < length images" for j
  proof -
    from that have "PP j \<in> set paths" by (simp add: paths_def)
    with tpn have "PP j \<noteq> tp" by blast
    with ct that show ?thesis by (simp add: w'_def)
  qed
  from 1 2 3 4 5 6 7 show ?thesis unfolding paths_def by blast
qed

lemma open_images_ok:
  "\<forall>p \<in> set ps. \<exists>im. files w p = Some (Png im) \<Longrightarrow>
   \<exists>ims. open_images w ps = Inr ims \<and> length ims = length ps
     \<and> (\<forall>j < length ps. files w (ps ! j) = Some (Png (ims ! j)))"
proof (induction ps)
  case Nil
  then show ?case by simp
next
  case (Cons p ps)
  then obtain im where im: "files w p = Some (Png im)" by auto
  from Cons obtain ims where ims: "open_images w ps = Inr ims" "length ims = length ps"
    "\<forall>j < length ps. files w (ps ! j) = Some (Png (ims ! j))" by auto
  have "open_images w (p # ps) = Inr (im # ims)"
    using im ims by (simp add: Image_open_def)
  moreover have "\<forall>j < length (p # ps). files w ((p # ps) ! j) = Some (Png ((im # ims) ! j))"
    using im ims by (auto simp: nth_Cons split: nat.splits)
  ultimately show ?case using ims by auto
qed

lemma os_remove_effect:
  "\<exists>r. os_remove env p w =
         (r, w\<lparr>removed := removed w @ [p],
               files := (if remove_error env p = None then (files w)(p := None) else files w)\<rparr>)
     \<and> (r = Inr () \<or> (\<exists>msg. r = Inl (Exn OSError msg)))"
proof (cases "p \<in> dom (files w)")
  case True
  then show ?thesis by (cases "remove_error env p") (simp_all add: os_remove_def)
next
  case False
  then have "(files w)(p := None) = files w" by (auto simp: fun_eq_iff)
  with False show ?thesis by (simp add: os_remove_def)
qed

lemma cleanup_temp_files_ok:
  "\<exists>w'. cleanup_temp_files env (map Some ps) w = (Inr (), w')
     \<and> removed w' = removed w @ ps
     \<and> names_drawn w' = names_drawn w
     \<and> (\<forall>p. files w' p
            = (if p \<in> set ps \<and> remove_error env p = None then None else files w p))"
proof (induction ps arbitrary: w)
  case Nil
  then show ?case by simp
next
  case (Cons p ps)
  from os_remove_effect[of env p w] obtain r w1 where r: "os_remove env p w = (r, w1)"
    and w1: "w1 = w\<lparr>removed := removed w @ [p],
               files := (if remove_error env p = None then (files w)(p := None) else files w)\<rparr>"
    and rr: "r = Inr () \<or> (\<exists>msg. r = Inl (Exn OSError msg))" by blast
  from rr r have step: "cleanup_temp_files env (map Some (p # ps)) w
      = cleanup_temp_files env (map Some ps) w1"
    by auto
  from Cons[of w1] obtain w' where "cleanup_temp_files env (map Some ps) w1 = (Inr (), w')"
    "removed w' = removed w1 @ ps" "names_drawn w' = names_drawn w1"
    "\<forall>q. files w' q = (if q \<in> set ps \<and> remove_error env q = None then None else files w1 q)"
    by blast
  with w1 step show ?case by auto
qed

subsection \<open>The example inputs\<close>

lemma str_nat_digits:
  "str_nat 0 = ''0''" "str_nat (Suc 0) = ''1''" "str_nat 2 = ''2''" "str_nat 3 = ''3''"
  by (simp_all add: str_nat.simps)

lemma example_env_simps:
  "UPLOAD_FOLDER example_env = ''/tmp''"
  "candidate_names example_env n = ''tmp'' @ str_nat n"
  "write_error example_env p = None"
  "failed_write_leaves example_env p = None"
  "remove_error example_env p = None"
  "png_encode example_env im = [137, 80, 78, 71]"
  "generate_content example_env im pr = Inl (Exn OtherException (ustr ''503 UNAVAILABLE''))"
  "convert_from_path example_env [37, 80, 68, 70] = Inr [white_page, grey_page]"
  "convert_from_path example_env [37, 80, 68, 70, 48] = Inr []"
  "convert_from_path example_env [104, 105] = Inl (Exn OtherException (ustr ''Unable to get page count.''))"
  by (simp_all add: example_env_def)

lemma disk_full_env_simps:
  "UPLOAD_FOLDER disk_full_env = ''/tmp''"
  "candidate_names disk_full_env n = ''tmp'' @ str_nat n"
  "write_error disk_full_env p =
     (if p = ''/tmp/page_2_tmp2.png''
      then Some (Exn OSError (ustr ''No space left on device'')) else None)"
  "convert_from_path disk_full_env [37, 80, 68, 70] = Inr [white_page, grey_page]"
  by (simp_all add: disk_full_env_def example_env_def)

lemma upload_simps:
  "filename report_pdf = ''report.pdf''" "content report_pdf = [37, 80, 68, 70]"
  "filename blank_pdf = ''blank.pdf''" "content blank_pdf = [37, 80, 68, 70, 48]"
  "filename notes_txt = ''notes.txt''" "content notes_txt = [104, 105]"
  by (simp_all add: report_pdf_def blank_pdf_def notes_txt_def)

lemma empty_world_simps:
  "files empty_world = Map.empty" "removed empty_world = []" "names_drawn empty_world = 0"
  by (simp_all add: empty_world_def)

lemma man_world_simps:
  "files man_world = [''/tmp/man.png'' \<mapsto> Raw [77, 97, 110]]" "removed man_world = []"
  "names_drawn man_world = 0"
  by (simp_all add: man_world_def)

lemmas example_simps = str_nat_digits example_env_simps upload_simps empty_world_simps
  man_world_simps

subsection \<open>The route: a request without a file\<close>

text \<open>
  Claim C9.  A request with no file, or with a file whose name is empty, is answered at
  once by the redirect to the form with the message \<^verbatim>\<open>No file selected.\<close>; nothing is
  written, nothing is removed and no name is drawn: the disk is as it was.
\<close>

theorem analyze_no_file:
  "analyze env None w = (Inr (Redirect_index ''No file selected.''), w)
   \<and> analyze env (Some (f\<lparr>filename := ''''\<rparr>)) w = (Inr (Redirect_index ''No file selected.''), w)"
  by (simp add: analyze_def)

theorem analyze_no_file_witness:
  "analyze example_env None man_world = (Inr (Redirect_index ''No file selected.''), man_world)
   \<and> analyze example_env (Some \<lparr>filename = '''', content = [37, 80, 68, 70]\<rparr>) man_world
       = (Inr (Redirect_index ''No file selected.''), man_world)"
  using analyze_no_file [of example_env man_world report_pdf]
  by (simp add: report_pdf_def)

lemma str_nat_Suc_digits:
  "str_nat (Suc (Suc 0)) = ''2''" "str_nat (Suc (Suc (Suc 0))) = ''3''"
  by (simp_all add: str_nat.simps)


lemmas path_simps = os_path_join_def page_file_name_def composite_file_name_def
  str_nat_digits str_nat_Suc_digits

subsection \<open>\<^verbatim>\<open>pdf_to_images\<close> and its temporary PDF\<close>





text \<open>
  The upload is saved before the \<^verbatim>\<open>try\<close> statement is entered (line 49): when saving
  raises after the file was opened, no \<^verbatim>\<open>finally\<close> clause is in force and what was written
  stays on disk.
\<close>

lemma pdf_to_images_save_cut_off:
  "files (snd (pdf_to_images cut_off_env (Some report_pdf) ''/tmp'' empty_world)) ''/tmp/tmp0.pdf''
     = Some (Raw [37, 80])
   \<and> fst (pdf_to_images cut_off_env (Some report_pdf) ''/tmp'' empty_world)
     = Inl (Exn OSError (ustr ''No space left on device''))
   \<and> removed (snd (pdf_to_images cut_off_env (Some report_pdf) ''/tmp'' empty_world)) = []"
proof -
  have r: "filename report_pdf \<noteq> []" by (simp add: example_simps)
  have p: "os_path_join ''/tmp'' (candidate_names cut_off_env (names_drawn empty_world) @ ''.pdf'')
      = ''/tmp/tmp0.pdf''"
    by (simp add: cut_off_env_def example_env_def example_simps path_simps)
  have wr: "write_error cut_off_env (os_path_join ''/tmp''
      (candidate_names cut_off_env (names_drawn empty_world) @ ''.pdf''))
        = Some (Exn OSError (ustr ''No space left on device''))"
    unfolding p by (simp add: cut_off_env_def)
  have lv: "failed_write_leaves cut_off_env ''/tmp/tmp0.pdf'' = Some (Raw [37, 80])"
    by (simp add: cut_off_env_def)
  show ?thesis
    unfolding pdf_to_images_write_fails[OF r wr] p by (simp add: lv example_simps)
qed

subsection \<open>\<^verbatim>\<open>combine_images_vertically\<close>\<close>

lemma pages_world_simps:
  "files pages_world = [''/tmp/page_1_tmp1.png'' \<mapsto> Png white_page,
                        ''/tmp/page_2_tmp2.png'' \<mapsto> Png grey_page]"
  "removed pages_world = [''/tmp/tmp0.pdf'']" "names_drawn pages_world = 3"
  by (simp_all add: pages_world_def)

lemma page_simps:
  "width white_page = 2" "height white_page = 3" "pixel white_page x y = (255, 255, 255)"
  "width grey_page = 1" "height grey_page = 2" "pixel grey_page x y = (128, 128, 128)"
  by (simp_all add: white_page_def grey_page_def)

lemma open_images_length: "open_images w ps = Inr ims \<Longrightarrow> length ims = length ps"
  by (induction ps arbitrary: ims) (auto split: sum.splits)

lemma open_images_pages:
  "open_images pages_world [''/tmp/page_1_tmp1.png'', ''/tmp/page_2_tmp2.png'']
     = Inr [white_page, grey_page]"
  by (simp add: Image_open_def pages_world_simps)

lemma rows_partition:
  "y < sum_list (map height images) \<Longrightarrow>
     \<exists>i < length images. \<exists>r < height (images ! i).
        y = sum_list (map height (take i images)) + r"
proof (induction images arbitrary: y)
  case Nil
  then show ?case by simp
next
  case (Cons im images)
  show ?case
  proof (cases "y < height im")
    case True
    then have "0 < length (im # images) \<and> y < height ((im # images) ! 0)
        \<and> y = sum_list (map height (take 0 (im # images))) + y" by simp
    then show ?thesis by blast
  next
    case False
    with Cons.prems have "y - height im < sum_list (map height images)" by simp
    from Cons.IH[OF this] obtain i r where i: "i < length images" and r: "r < height (images ! i)"
      and y: "y - height im = sum_list (map height (take i images)) + r" by blast
    from False y have "y = sum_list (map height (take (Suc i) (im # images))) + r" by simp
    moreover from i have "Suc i < length (im # images)" by simp
    moreover from r have "r < height ((im # images) ! Suc i)" by simp
    ultimately show ?thesis by blast
  qed
qed

lemma combine_images_vertically_written:
  assumes ne: "image_paths \<noteq> []"
    and op: "open_images w image_paths = Inr images"
    and c: "composite_of images = Inr c"
    and wr: "write_error env (os_path_join folder
               (composite_file_name (candidate_names env (names_drawn w)))) = None"
  shows "combine_images_vertically env image_paths folder w =
     (Inr (Some (os_path_join folder (composite_file_name (candidate_names env (names_drawn w))))),
      w\<lparr>names_drawn := Suc (names_drawn w),
        files := (files w)(os_path_join folder
          (composite_file_name (candidate_names env (names_drawn w))) \<mapsto> Png c)\<rparr>)"
  using assms
  by (simp add: combine_images_vertically_def next_candidate_name_def write_file_def Let_def)

lemma combine_images_vertically_write_fails:
  assumes ne: "image_paths \<noteq> []"
    and op: "open_images w image_paths = Inr images"
    and c: "composite_of images = Inr c"
    and wr: "write_error env (os_path_join folder
               (composite_file_name (candidate_names env (names_drawn w)))) = Some e"
  shows "fst (combine_images_vertically env image_paths folder w) = Inl e"
  using assms
  by (simp add: combine_images_vertically_def next_candidate_name_def write_file_def Let_def)

text \<open>
  Claim C2.  For a list of paths that is not empty and whose files are images, when the
  composite can be written: \<^verbatim>\<open>combine_images_vertically\<close> returns the path of one PNG
  file; the image in it is as wide as the widest page and as high as all pages together;
  row \<open>r\<close> of page \<open>i\<close> is row \<open>r\<close> plus the heights of the pages before \<open>i\<close>, starting at
  column 0 (right of a narrower page the canvas stays black); and every row of the
  composite is a row of exactly such a page, so that no page covers another and no row
  is left between two pages.
\<close>

theorem combine_images_vertically_layout:
  assumes "image_paths \<noteq> []"
    and "open_images w image_paths = Inr images"
    and "write_error env (os_path_join folder
           (composite_file_name (candidate_names env (names_drawn w)))) = None"
  shows "\<exists>c. combine_images_vertically env image_paths folder w =
          (Inr (Some (os_path_join folder
                  (composite_file_name (candidate_names env (names_drawn w))))),
           w\<lparr>names_drawn := Suc (names_drawn w),
             files := (files w)(os_path_join folder
               (composite_file_name (candidate_names env (names_drawn w))) \<mapsto> Png c)\<rparr>)
      \<and> length images = length image_paths
      \<and> width c = Max (set (map width images))
      \<and> height c = sum_list (map height images)
      \<and> (\<forall>i < length images. \<forall>r < height (images ! i). \<forall>x.
            pixel c x (sum_list (map height (take i images)) + r)
              = (if x < width (images ! i) then pixel (images ! i) x r else (0, 0, 0)))
      \<and> (\<forall>y < height c. \<exists>i < length images. \<exists>r < height (images ! i).
            y = sum_list (map height (take i images)) + r)"
proof -
  from assms(1,2) have len: "length images = length image_paths" and ne: "images \<noteq> []"
    using open_images_length by fastforce+
  from composite_of_spec[OF ne] obtain c where c: "composite_of images = Inr c"
    and w: "width c = Max (set (map width images))"
    and h: "height c = sum_list (map height images)"
    and px: "\<forall>i < length images. \<forall>r < height (images ! i). \<forall>x.
            pixel c x (sum_list (map height (take i images)) + r)
              = (if x < width (images ! i) then pixel (images ! i) x r else (0, 0, 0))"
    by blast
  have rows: "\<forall>y < height c. \<exists>i < length images. \<exists>r < height (images ! i).
            y = sum_list (map height (take i images)) + r"
    unfolding h using rows_partition by blast
  from combine_images_vertically_written[OF assms(1,2) c assms(3)] len w h px rows
  show ?thesis by blast
qed

lemma composite_path_example:
  "os_path_join ''/tmp'' (composite_file_name (candidate_names example_env (names_drawn pages_world)))
     = ''/tmp/composite_tmp3.png''"
  by (simp add: example_simps pages_world_simps path_simps)

theorem combine_images_vertically_layout_witness:
  "open_images pages_world [''/tmp/page_1_tmp1.png'', ''/tmp/page_2_tmp2.png'']
     = Inr [white_page, grey_page]
   \<and> (\<exists>c. combine_images_vertically example_env
              [''/tmp/page_1_tmp1.png'', ''/tmp/page_2_tmp2.png''] ''/tmp'' pages_world
          = (Inr (Some ''/tmp/composite_tmp3.png''),
             pages_world\<lparr>names_drawn := 4,
               files := (files pages_world)(''/tmp/composite_tmp3.png'' \<mapsto> Png c)\<rparr>)
        \<and> width c = 2 \<and> height c = 5
        \<and> pixel c 0 0 = (255, 255, 255) \<and> pixel c 1 2 = (255, 255, 255)
        \<and> pixel c 0 3 = (128, 128, 128) \<and> pixel c 1 4 = (0, 0, 0))"
proof -
  let ?ps = "[''/tmp/page_1_tmp1.png'', ''/tmp/page_2_tmp2.png'']"
  let ?ims = "[white_page, grey_page]"
  have ne: "?ps \<noteq> []" by simp
  have wr: "write_error example_env (os_path_join ''/tmp''
      (composite_file_name (candidate_names example_env (names_drawn pages_world)))) = None"
    by (simp add: example_simps)
  from combine_images_vertically_layout[OF ne open_images_pages wr]
  obtain c where r: "combine_images_vertically example_env ?ps ''/tmp'' pages_world
          = (Inr (Some ''/tmp/composite_tmp3.png''),
             pages_world\<lparr>names_drawn := Suc (names_drawn pages_world),
               files := (files pages_world)(''/tmp/composite_tmp3.png'' \<mapsto> Png c)\<rparr>)"
    and w: "width c = Max (set (map width ?ims))"
    and h: "height c = sum_list (map height ?ims)"
    and px: "\<forall>i < length ?ims. \<forall>r < height (?ims ! i). \<forall>x.
            pixel c x (sum_list (map height (take i ?ims)) + r)
              = (if x < width (?ims ! i) then pixel (?ims ! i) x r else (0, 0, 0))"
    unfolding composite_path_example by blast
  have r': "combine_images_vertically example_env ?ps ''/tmp'' pages_world
          = (Inr (Some ''/tmp/composite_tmp3.png''),
             pages_world\<lparr>names_drawn := 4,
               files := (files pages_world)(''/tmp/composite_tmp3.png'' \<mapsto> Png c)\<rparr>)"
    using r by (simp add: pages_world_simps)
  have w': "width c = 2" using w by (simp add: page_simps)
  have h': "height c = 5" using h by (simp add: page_simps)
  have p00: "pixel c 0 0 = (255, 255, 255)"
    using px[rule_format, of 0 0 0] by (simp add: page_simps)
  have p12: "pixel c 1 2 = (255, 255, 255)"
    using px[rule_format, of 0 2 1] by (simp add: page_simps numeral_2_eq_2)
  have p03: "pixel c 0 3 = (128, 128, 128)"
    using px[rule_format, of 1 0 0] by (simp add: page_simps)
  have p14: "pixel c 1 4 = (0, 0, 0)"
    using px[rule_format, of 1 1 1] by (simp add: page_simps)
  from open_images_pages r' w' h' p00 p12 p03 p14 show ?thesis by blast
qed

subsection \<open>\<^verbatim>\<open>combine_images_vertically\<close> without pages\<close>

text \<open>
  Claim C3, as the code has it.  For the empty list \<^verbatim>\<open>combine_images_vertically\<close> returns
  \<^verbatim>\<open>None\<close>: it raises nothing, draws no name and writes no file.  It returns no image of
  size zero: when it returns for a list that is not empty, of images that have a width
  and a height, what it returns is the path of a stored image that has a width and a
  height.
\<close>

theorem combine_images_vertically_no_pages:
  "combine_images_vertically env [] folder w = (Inr None, w)
   \<and> (image_paths \<noteq> [] \<and> open_images w image_paths = Inr images
        \<and> list_all (\<lambda>im. 0 < width im \<and> 0 < height im) images
        \<and> fst (combine_images_vertically env image_paths folder w) = Inr r
      \<longrightarrow> (\<exists>cp c. r = Some cp
             \<and> files (snd (combine_images_vertically env image_paths folder w)) cp = Some (Png c)
             \<and> 0 < width c \<and> 0 < height c))"
proof -
  have a: "combine_images_vertically env [] folder w = (Inr None, w)"
    by (simp add: combine_images_vertically_def)
  have b: "\<exists>cp c. r = Some cp
             \<and> files (snd (combine_images_vertically env image_paths folder w)) cp = Some (Png c)
             \<and> 0 < width c \<and> 0 < height c"
    if ne: "image_paths \<noteq> []" and op: "open_images w image_paths = Inr images"
      and pos: "list_all (\<lambda>im. 0 < width im \<and> 0 < height im) images"
      and res: "fst (combine_images_vertically env image_paths folder w) = Inr r"
  proof -
    let ?cp = "os_path_join folder (composite_file_name (candidate_names env (names_drawn w)))"
    from ne op have ine: "images \<noteq> []" using open_images_length by fastforce
    from composite_of_spec[OF ine] obtain c where c: "composite_of images = Inr c"
      and w: "width c = Max (set (map width images))"
      and h: "height c = sum_list (map height images)" by blast
    obtain im ims where ims: "images = im # ims" using ine by (cases images) auto
    with pos have "0 < width im" "0 < height im" by simp_all
    moreover have "width im \<le> Max (set (map width images))" using ims by (intro Max_ge) auto
    moreover have "height im \<le> sum_list (map height images)" using ims by simp
    ultimately have wp: "0 < width c" and hp: "0 < height c" using w h by simp_all
    show ?thesis
    proof (cases "write_error env ?cp")
      case None
      note eq = combine_images_vertically_written[OF ne op c None]
      from res have "r = Some ?cp" unfolding eq by simp
      moreover have "files (snd (combine_images_vertically env image_paths folder w)) ?cp
          = Some (Png c)"
        unfolding eq by simp
      ultimately show ?thesis using wp hp by blast
    next
      case (Some e)
      from combine_images_vertically_write_fails[OF ne op c Some] res show ?thesis by simp
    qed
  qed
  from a b show ?thesis by blast
qed

theorem combine_images_vertically_no_pages_witness:
  "combine_images_vertically example_env [] ''/tmp'' pages_world = (Inr None, pages_world)
   \<and> open_images pages_world [''/tmp/page_1_tmp1.png'', ''/tmp/page_2_tmp2.png'']
       = Inr [white_page, grey_page]
   \<and> list_all (\<lambda>im. 0 < width im \<and> 0 < height im) [white_page, grey_page]
   \<and> fst (combine_images_vertically example_env
             [''/tmp/page_1_tmp1.png'', ''/tmp/page_2_tmp2.png''] ''/tmp'' pages_world)
       = Inr (Some ''/tmp/composite_tmp3.png'')
   \<and> (\<exists>c. files (snd (combine_images_vertically example_env
                      [''/tmp/page_1_tmp1.png'', ''/tmp/page_2_tmp2.png''] ''/tmp'' pages_world))
                ''/tmp/composite_tmp3.png'' = Some (Png c)
          \<and> 0 < width c \<and> 0 < height c)"
proof -
  let ?ps = "[''/tmp/page_1_tmp1.png'', ''/tmp/page_2_tmp2.png'']"
  have pos: "list_all (\<lambda>im. 0 < width im \<and> 0 < height im) [white_page, grey_page]"
    by (simp add: page_simps)
  obtain c where c: "composite_of [white_page, grey_page] = Inr c"
    using composite_of_spec[of "[white_page, grey_page]"] by auto
  have wr: "write_error example_env (os_path_join ''/tmp''
      (composite_file_name (candidate_names example_env (names_drawn pages_world)))) = None"
    by (simp add: example_simps)
  have res: "fst (combine_images_vertically example_env ?ps ''/tmp'' pages_world)
      = Inr (Some ''/tmp/composite_tmp3.png'')"
    using combine_images_vertically_written[OF _ open_images_pages c wr]
    by (simp add: composite_path_example)
  from combine_images_vertically_no_pages[of example_env "''/tmp''" pages_world ?ps
      "[white_page, grey_page]" "Some ''/tmp/composite_tmp3.png''"]
    open_images_pages pos res
  show ?thesis by simp
qed

text \<open>The claim as it is written fails at the empty list: no exception is raised.\<close>

theorem combine_images_vertically_empty_returns_None:
  "combine_images_vertically example_env [] ''/tmp'' empty_world = (Inr None, empty_world)"
  by (simp add: combine_images_vertically_def)

subsection \<open>Page files have different paths\<close>

text \<open>
  The page number is part of the file name, so two pages of one document never share a
  path, whatever names are drawn.
\<close>

lemma digit_nth_inj:
  assumes "a < 10" "b < 10" "''0123456789'' ! a = ''0123456789'' ! b"
  shows "a = b"
proof -
  have d: "distinct ''0123456789''" by simp
  from assms show ?thesis using d by (simp add: nth_eq_iff_index_eq)
qed

lemma digit_nth_in: "a < 10 \<Longrightarrow> ''0123456789'' ! a \<in> set ''0123456789''"
  by (rule nth_mem) simp

lemma str_nat_digits_only: "set (str_nat n) \<subseteq> set ''0123456789''"
proof (induction n rule: str_nat.induct)
  case (1 n)
  show ?case
  proof (cases "n < 10")
    case True
    then have "str_nat n = [''0123456789'' ! n]" by (subst str_nat.simps) simp
    with digit_nth_in[OF True] show ?thesis by simp
  next
    case False
    then have s: "str_nat n = str_nat (n div 10) @ [''0123456789'' ! (n mod 10)]"
      by (subst str_nat.simps) simp
    have "n mod 10 < 10" by simp
    from digit_nth_in[OF this] 1[OF False] show ?thesis unfolding s by simp
  qed
qed

lemma str_nat_no_underscore: "CHR ''_'' \<notin> set (str_nat n)"
  using str_nat_digits_only[of n] by auto

lemma str_nat_not_Nil: "str_nat n \<noteq> []"
  by (subst str_nat.simps) simp

lemma str_nat_inj: "str_nat a = str_nat b \<Longrightarrow> a = b"
proof (induction a arbitrary: b rule: str_nat.induct)
  case (1 a)
  show ?case
  proof (cases "a < 10")
    case True
    then have sa: "str_nat a = [''0123456789'' ! a]" by (subst str_nat.simps) simp
    show ?thesis
    proof (cases "b < 10")
      case b: True
      then have "str_nat b = [''0123456789'' ! b]" by (subst str_nat.simps) simp
      with sa "1.prems" True b show ?thesis using digit_nth_inj by simp
    next
      case False
      then have "str_nat b = str_nat (b div 10) @ [''0123456789'' ! (b mod 10)]"
        by (subst str_nat.simps) simp
      with sa "1.prems" have "str_nat (b div 10) = []" by simp
      with str_nat_not_Nil show ?thesis by blast
    qed
  next
    case False
    then have sa: "str_nat a = str_nat (a div 10) @ [''0123456789'' ! (a mod 10)]"
      by (subst str_nat.simps) simp
    show ?thesis
    proof (cases "b < 10")
      case True
      then have "str_nat b = [''0123456789'' ! b]" by (subst str_nat.simps) simp
      with sa "1.prems" have "str_nat (a div 10) = []" by simp
      with str_nat_not_Nil show ?thesis by blast
    next
      case b: False
      then have sb: "str_nat b = str_nat (b div 10) @ [''0123456789'' ! (b mod 10)]"
        by (subst str_nat.simps) simp
      from sa sb "1.prems" have q: "str_nat (a div 10) = str_nat (b div 10)"
        and r: "''0123456789'' ! (a mod 10) = ''0123456789'' ! (b mod 10)" by simp_all
      from "1.IH"[OF False q] have "a div 10 = b div 10" .
      moreover from r have "a mod 10 = b mod 10" by (intro digit_nth_inj) simp_all
      ultimately show ?thesis by (metis div_mult_mod_eq)
    qed
  qed
qed

lemma page_file_name_inj:
  assumes "page_file_name i n = page_file_name j m"
  shows "i = j"
proof -
  let ?P = "\<lambda>c. c \<noteq> CHR ''_''"
  from assms have e: "str_nat (i + 1) @ ''_'' @ n @ ''.png'' = str_nat (j + 1) @ ''_'' @ m @ ''.png''"
    by (simp add: page_file_name_def)
  have t: "takeWhile ?P (str_nat k @ ''_'' @ r) = str_nat k" for k r
  proof -
    have "\<And>c. c \<in> set (str_nat k) \<Longrightarrow> ?P c" using str_nat_no_underscore[of k] by blast
    then have "takeWhile ?P (str_nat k @ ''_'' @ r) = str_nat k @ takeWhile ?P (''_'' @ r)"
      by (rule takeWhile_append2)
    then show ?thesis by simp
  qed
  from arg_cong[OF e, of "takeWhile ?P"] have "str_nat (i + 1) = str_nat (j + 1)"
    unfolding t .
  from str_nat_inj[OF this] show ?thesis by simp
qed

lemma os_path_join_page:
  "os_path_join folder (page_file_name i n)
     = (if folder = [] \<or> last folder = CHR ''/'' then folder else folder @ ''/'')
       @ page_file_name i n"
  by (simp add: os_path_join_def page_file_name_def)

lemma page_path_inj:
  "os_path_join folder (page_file_name i n) = os_path_join folder (page_file_name j m) \<Longrightarrow> i = j"
  unfolding os_path_join_page using page_file_name_inj by simp

lemma page_paths_distinct:
  "distinct (map (\<lambda>j. os_path_join folder (page_file_name j (g j))) [0 ..< n])"
  by (auto simp: distinct_map inj_on_def dest: page_path_inj)

subsection \<open>\<^verbatim>\<open>pdf_to_images\<close>: the pages\<close>

text \<open>
  Claim C5, as the code has it.  For an upload that is saved, with no save of a page
  failing and the temporary PDF removed: when pdf2image raises (the bytes are no PDF),
  \<^verbatim>\<open>pdf_to_images\<close> raises that exception; when pdf2image returns \<open>N\<close> page images, the
  function returns exactly \<open>N\<close> paths, in page order: the path at index \<open>j\<close> is named
  \<^verbatim>\<open>page_\<close>\<open>j + 1\<close>, is made of the \<open>j\<close>-th name drawn after the one of the PDF, and holds the
  \<open>j\<close>-th page image.  With \<open>N = 0\<close> this is the empty list: no exception is raised for a
  document without pages.
\<close>

theorem pdf_to_images_pages:
  assumes "filename f \<noteq> []"
    and "\<forall>p. write_error env p = None"
    and "remove_error env (os_path_join output_folder
           (candidate_names env (names_drawn w) @ ''.pdf'')) = None"
  shows "(\<forall>e. convert_from_path env (content f) = Inl e
            \<longrightarrow> fst (pdf_to_images env (Some f) output_folder w) = Inl e)
     \<and> (\<forall>images. convert_from_path env (content f) = Inr images
            \<longrightarrow> fst (pdf_to_images env (Some f) output_folder w)
                  = Inr (map (\<lambda>j. os_path_join output_folder
                           (page_file_name j (candidate_names env (names_drawn w + 1 + j))))
                         [0 ..< length images])
                \<and> (\<forall>j < length images.
                      files (snd (pdf_to_images env (Some f) output_folder w))
                        (os_path_join output_folder
                           (page_file_name j (candidate_names env (names_drawn w + 1 + j))))
                      = Some (Png (images ! j))))"
proof (intro conjI allI impI)
  fix e assume cv: "convert_from_path env (content f) = Inl e"
  have wr: "write_error env (os_path_join output_folder
      (candidate_names env (names_drawn w) @ ''.pdf'')) = None"
    using assms(2) by simp
  from pdf_to_images_convert_fails[OF assms(1) wr cv assms(3)]
  show "fst (pdf_to_images env (Some f) output_folder w) = Inl e" by simp
next
  fix images assume cv: "convert_from_path env (content f) = Inr images"
  let ?PP = "\<lambda>j. os_path_join output_folder
      (page_file_name j (candidate_names env (names_drawn w + 1 + j)))"
  have d: "distinct (map ?PP [0 ..< length images])" by (rule page_paths_distinct)
  from pdf_to_images_ok[OF assms(1) assms(2) assms(3) cv] d
  obtain w' where r: "pdf_to_images env (Some f) output_folder w
        = (Inr (map ?PP [0 ..< length images]), w')"
    and c: "\<forall>j < length images. files w' (?PP j) = Some (Png (images ! j))"
    by blast
  from r show "fst (pdf_to_images env (Some f) output_folder w)
      = Inr (map ?PP [0 ..< length images])" by simp
  fix j assume "j < length images"
  with c r show "files (snd (pdf_to_images env (Some f) output_folder w)) (?PP j)
      = Some (Png (images ! j))" by simp
qed

theorem pdf_to_images_pages_witness:
  "fst (pdf_to_images example_env (Some report_pdf) ''/tmp'' empty_world)
     = Inr [''/tmp/page_1_tmp1.png'', ''/tmp/page_2_tmp2.png'']
   \<and> files (snd (pdf_to_images example_env (Some report_pdf) ''/tmp'' empty_world))
        ''/tmp/page_1_tmp1.png'' = Some (Png white_page)
   \<and> files (snd (pdf_to_images example_env (Some report_pdf) ''/tmp'' empty_world))
        ''/tmp/page_2_tmp2.png'' = Some (Png grey_page)
   \<and> fst (pdf_to_images example_env (Some notes_txt) ''/tmp'' empty_world)
     = Inl (Exn OtherException (ustr ''Unable to get page count.''))"
proof -
  have n: "filename notes_txt \<noteq> []" and r: "filename report_pdf \<noteq> []"
    by (simp_all add: example_simps)
  have ok: "\<forall>p. write_error example_env p = None" by (simp add: example_simps)
  have rmv: "remove_error example_env (os_path_join ''/tmp''
      (candidate_names example_env (names_drawn empty_world) @ ''.pdf'')) = None"
    by (simp add: example_simps)
  have cr: "convert_from_path example_env (content report_pdf) = Inr [white_page, grey_page]"
    and cn: "convert_from_path example_env (content notes_txt)
      = Inl (Exn OtherException (ustr ''Unable to get page count.''))"
    by (simp_all add: example_simps)
  note R = pdf_to_images_pages[OF r ok rmv, THEN conjunct2, rule_format, OF cr]
  note N = pdf_to_images_pages[OF n ok rmv, THEN conjunct1, rule_format, OF cn]
  have "fst (pdf_to_images example_env (Some report_pdf) ''/tmp'' empty_world)
     = Inr [''/tmp/page_1_tmp1.png'', ''/tmp/page_2_tmp2.png'']"
    using R[THEN conjunct1] by (simp add: example_simps path_simps)
  moreover have "files (snd (pdf_to_images example_env (Some report_pdf) ''/tmp'' empty_world))
        ''/tmp/page_1_tmp1.png'' = Some (Png white_page)"
    using R[THEN conjunct2, rule_format, of 0] by (simp add: example_simps path_simps)
  moreover have "files (snd (pdf_to_images example_env (Some report_pdf) ''/tmp'' empty_world))
        ''/tmp/page_2_tmp2.png'' = Some (Png grey_page)"
    using R[THEN conjunct2, rule_format, of 1] by (simp add: example_simps path_simps)
  ultimately show ?thesis using N by simp
qed

text \<open>
  The claim as it is written fails for a document that pdf2image converts to no page:
  the empty list is returned, and the temporary PDF is removed as usual.
\<close>

theorem pdf_to_images_no_page_returns_Nil:
  "fst (pdf_to_images example_env (Some blank_pdf) ''/tmp'' empty_world) = Inr []"
proof -
  have b: "filename blank_pdf \<noteq> []" by (simp add: example_simps)
  have ok: "\<forall>p. write_error example_env p = None" by (simp add: example_simps)
  have rmv: "remove_error example_env (os_path_join ''/tmp''
      (candidate_names example_env (names_drawn empty_world) @ ''.pdf'')) = None"
    by (simp add: example_simps)
  have cv: "convert_from_path example_env (content blank_pdf) = Inr []"
    by (simp add: example_simps)
  from pdf_to_images_ok[OF b ok rmv cv] show ?thesis by auto
qed

subsection \<open>\<^verbatim>\<open>analyze_image\<close> and a model service that fails\<close>

lemma analyze_image_remote_failure:
  assumes "Image_open w p = Inr img" and "generate_content env img pr = Inl e"
  shows "analyze_image env (Some p) pr w
    = ustr ''Error: Could not analyze report. API issue: '' @ str_exn e"
  using assms by (simp add: analyze_image_def analyze_image_body_def)

lemma analyze_image_no_text:
  assumes "Image_open w p = Inr img" and "generate_content env img pr = Inr None"
  shows "analyze_image env (Some p) pr w
    = ustr ''Error: Could not analyze report. API issue: ''
      @ str_exn (Exn TypeError (ustr ''expected string or bytes-like object''))"
  using assms by (simp add: analyze_image_def analyze_image_body_def)

text \<open>
  The whole request when every save and every removal succeeds, the document has at least
  one page and the model service fails at each call.
\<close>

lemma analyze_all_sections_fail:
  assumes f: "filename f \<noteq> []"
    and ok: "\<forall>p. write_error env p = None"
    and rm: "remove_error env (os_path_join (UPLOAD_FOLDER env)
           (candidate_names env (names_drawn w) @ ''.pdf'')) = None"
    and cv: "convert_from_path env (content f) = Inr images"
    and ne: "images \<noteq> []"
    and gc: "\<forall>img pr. generate_content env img pr = Inl (fault pr)"
  shows "\<exists>b64 w'. analyze env (Some f) w =
      (Inr (Render_results
         (map (\<lambda>(key, pr). (key,
                 ustr ''Error: Could not analyze report. API issue: '' @ str_exn (fault pr)))
            [(''health_summary'', HEALTH_SUMMARY_PROMPT),
             (''glance_parameters'', GLANCE_PARAMETERS_PROMPT),
             (''potential_risks'', POTENTIAL_RISKS_PROMPT),
             (''diet_recommendations'', DIET_RECOMMENDATIONS_PROMPT),
             (''consolidated_guidance'', CONSOLIDATED_GUIDANCE_PROMPT),
             (''final_summary'', FINAL_SUMMARY_PROMPT)])
         b64), w')
    \<and> (\<forall>p. files w p = None \<longrightarrow> remove_error env p = None \<longrightarrow> files w' p = None)"
proof -
  let ?folder = "UPLOAD_FOLDER env"
  let ?tp = "os_path_join ?folder (candidate_names env (names_drawn w) @ ''.pdf'')"
  let ?PP = "\<lambda>j. os_path_join ?folder (page_file_name j (candidate_names env (names_drawn w + 1 + j)))"
  define paths where "paths = map ?PP [0 ..< length images]"
  from pdf_to_images_ok[OF f ok rm cv]
  obtain w1 where r1: "pdf_to_images env (Some f) ?folder w = (Inr paths, w1)"
    and tp1: "files w1 ?tp = None"
    and fr1: "\<forall>p. p \<notin> set paths \<longrightarrow> p \<noteq> ?tp \<longrightarrow> files w1 p = files w p"
    and png1: "\<forall>p \<in> set paths. \<exists>im. files w1 p = Some (Png im)"
    unfolding paths_def by blast
  from ne have pne: "paths \<noteq> []" by (simp add: paths_def)
  from open_images_ok[OF png1] obtain ims where op: "open_images w1 paths = Inr ims"
    and len: "length ims = length paths" by blast
  from len pne have "ims \<noteq> []" by auto
  from composite_of_spec[OF this] obtain c where c: "composite_of ims = Inr c" by blast
  define cp where "cp = os_path_join ?folder (composite_file_name (candidate_names env (names_drawn w1)))"
  define w2 where "w2 = w1\<lparr>names_drawn := Suc (names_drawn w1), files := (files w1)(cp \<mapsto> Png c)\<rparr>"
  have wr: "write_error env (os_path_join ?folder
      (composite_file_name (candidate_names env (names_drawn w1)))) = None"
    using ok by simp
  have r2: "combine_images_vertically env paths ?folder w1 = (Inr (Some cp), w2)"
    using combine_images_vertically_written[OF pne op c wr] by (simp add: cp_def w2_def)
  have io: "Image_open w2 cp = Inr c" by (simp add: Image_open_def w2_def)
  have ai: "analyze_image env (Some cp) pr w2
      = ustr ''Error: Could not analyze report. API issue: '' @ str_exn (fault pr)" for pr
    using analyze_image_remote_failure[OF io] gc by simp
  define b64 where "b64 = ''data:image/png;base64,'' @ b64encode (png_encode env c)"
  have en: "encode_image_to_base64 env (Some cp) w2 = Inr b64"
    by (simp add: encode_image_to_base64_def read_bytes_def w2_def b64_def)
  let ?results = "map (\<lambda>(key, pr). (key,
                 ustr ''Error: Could not analyze report. API issue: '' @ str_exn (fault pr)))
            [(''health_summary'', HEALTH_SUMMARY_PROMPT),
             (''glance_parameters'', GLANCE_PARAMETERS_PROMPT),
             (''potential_risks'', POTENTIAL_RISKS_PROMPT),
             (''diet_recommendations'', DIET_RECOMMENDATIONS_PROMPT),
             (''consolidated_guidance'', CONSOLIDATED_GUIDANCE_PROMPT),
             (''final_summary'', FINAL_SUMMARY_PROMPT)]"
  have body: "analyze_body env (Some f) w
      = (Inr (Render_results ?results b64), map Some (paths @ [cp]), w2)"
    by (simp add: analyze_body_def r1 r2 ai en Let_def)
  from cleanup_temp_files_ok[of env "paths @ [cp]" w2]
  obtain w3 where cl: "cleanup_temp_files env (map Some (paths @ [cp])) w2 = (Inr (), w3)"
    and f3: "\<forall>p. files w3 p
        = (if p \<in> set (paths @ [cp]) \<and> remove_error env p = None then None else files w2 p)"
    by blast
  from cl have cl': "cleanup_temp_files env (map Some paths @ [Some cp]) w2 = (Inr (), w3)"
    by simp
  have res: "analyze env (Some f) w = (Inr (Render_results ?results b64), w3)"
    using f by (simp add: analyze_def body cl' Let_def)
  have gone: "files w3 p = None" if "files w p = None" and r: "remove_error env p = None" for p
  proof (cases "p \<in> set (paths @ [cp])")
    case True
    with f3 r show ?thesis by simp
  next
    case False
    then have a: "p \<notin> set paths" and b: "p \<noteq> cp" by auto
    from f3 False have "files w3 p = files w2 p" by simp
    also from b have "\<dots> = files w1 p" by (simp add: w2_def)
    also have "\<dots> = None"
    proof (cases "p = ?tp")
      case True
      with tp1 show ?thesis by simp
    next
      case False
      with fr1 a that(1) show ?thesis by simp
    qed
    finally show ?thesis .
  qed
  from res gone show ?thesis by blast
qed

text \<open>
  Claim C4.  \<^verbatim>\<open>analyze_image\<close> raises nothing: whenever the call of the model fails, with
  whatever exception, and also when its response carries no text, the function returns
  the text \<^verbatim>\<open>Error: Could not analyze report. API issue: \<close> followed by the message of the
  exception.  So a request for a document with at least one page, when the files can be
  saved, the temporary PDF can be removed and each of the six calls of the model fails, is
  answered by the result page: its six sections are these error texts, each with the
  message of its own failure; and no file that was not on disk before is on disk
  afterwards, but one that the system refuses to remove.
\<close>

theorem analyze_image_failure_is_text:
  "(Image_open w p = Inr img \<and> generate_content env img pr = Inl e
      \<longrightarrow> analyze_image env (Some p) pr w
          = ustr ''Error: Could not analyze report. API issue: '' @ str_exn e)
   \<and> (Image_open w p = Inr img \<and> generate_content env img pr = Inr None
      \<longrightarrow> (\<exists>msg. analyze_image env (Some p) pr w
          = ustr ''Error: Could not analyze report. API issue: '' @ msg))
   \<and> (filename f \<noteq> [] \<and> (\<forall>p. write_error env p = None)
        \<and> remove_error env (os_path_join (UPLOAD_FOLDER env)
              (candidate_names env (names_drawn w) @ ''.pdf'')) = None
        \<and> convert_from_path env (content f) = Inr images \<and> images \<noteq> []
        \<and> (\<forall>img pr. generate_content env img pr = Inl (fault pr))
      \<longrightarrow> (\<exists>b64. fst (analyze env (Some f) w) =
            Inr (Render_results
              (map (\<lambda>(key, pr). (key,
                      ustr ''Error: Could not analyze report. API issue: '' @ str_exn (fault pr)))
                 [(''health_summary'', HEALTH_SUMMARY_PROMPT),
                  (''glance_parameters'', GLANCE_PARAMETERS_PROMPT),
                  (''potential_risks'', POTENTIAL_RISKS_PROMPT),
                  (''diet_recommendations'', DIET_RECOMMENDATIONS_PROMPT),
                  (''consolidated_guidance'', CONSOLIDATED_GUIDANCE_PROMPT),
                  (''final_summary'', FINAL_SUMMARY_PROMPT)])
              b64))
          \<and> (\<forall>p. files w p = None \<longrightarrow> remove_error env p = None
                \<longrightarrow> files (snd (analyze env (Some f) w)) p = None))"
proof (intro conjI impI)
  assume "Image_open w p = Inr img \<and> generate_content env img pr = Inl e"
  then show "analyze_image env (Some p) pr w
          = ustr ''Error: Could not analyze report. API issue: '' @ str_exn e"
    using analyze_image_remote_failure by blast
next
  assume "Image_open w p = Inr img \<and> generate_content env img pr = Inr None"
  then show "\<exists>msg. analyze_image env (Some p) pr w
          = ustr ''Error: Could not analyze report. API issue: '' @ msg"
    using analyze_image_no_text[of w p img env pr] by blast
next
  assume h: "filename f \<noteq> [] \<and> (\<forall>p. write_error env p = None)
        \<and> remove_error env (os_path_join (UPLOAD_FOLDER env)
              (candidate_names env (names_drawn w) @ ''.pdf'')) = None
        \<and> convert_from_path env (content f) = Inr images \<and> images \<noteq> []
        \<and> (\<forall>img pr. generate_content env img pr = Inl (fault pr))"
  from h have h1: "filename f \<noteq> []" and h2: "\<forall>p. write_error env p = None"
    and h3: "remove_error env (os_path_join (UPLOAD_FOLDER env)
              (candidate_names env (names_drawn w) @ ''.pdf'')) = None"
    and h4: "convert_from_path env (content f) = Inr images" and h5: "images \<noteq> []"
    and h6: "\<forall>img pr. generate_content env img pr = Inl (fault pr)" by blast+
  from analyze_all_sections_fail[OF h1 h2 h3 h4 h5 h6]
  obtain b64 w' where r: "analyze env (Some f) w =
      (Inr (Render_results
         (map (\<lambda>(key, pr). (key,
                 ustr ''Error: Could not analyze report. API issue: '' @ str_exn (fault pr)))
            [(''health_summary'', HEALTH_SUMMARY_PROMPT),
             (''glance_parameters'', GLANCE_PARAMETERS_PROMPT),
             (''potential_risks'', POTENTIAL_RISKS_PROMPT),
             (''diet_recommendations'', DIET_RECOMMENDATIONS_PROMPT),
             (''consolidated_guidance'', CONSOLIDATED_GUIDANCE_PROMPT),
             (''final_summary'', FINAL_SUMMARY_PROMPT)])
         b64), w')"
    and g: "\<forall>p. files w p = None \<longrightarrow> remove_error env p = None \<longrightarrow> files w' p = None"
    by blast
  from r show "\<exists>b64. fst (analyze env (Some f) w) =
            Inr (Render_results
              (map (\<lambda>(key, pr). (key,
                      ustr ''Error: Could not analyze report. API issue: '' @ str_exn (fault pr)))
                 [(''health_summary'', HEALTH_SUMMARY_PROMPT),
                  (''glance_parameters'', GLANCE_PARAMETERS_PROMPT),
                  (''potential_risks'', POTENTIAL_RISKS_PROMPT),
                  (''diet_recommendations'', DIET_RECOMMENDATIONS_PROMPT),
                  (''consolidated_guidance'', CONSOLIDATED_GUIDANCE_PROMPT),
                  (''final_summary'', FINAL_SUMMARY_PROMPT)])
              b64)"
    by (intro exI[of _ b64]) simp
  from r g show "\<forall>p. files w p = None \<longrightarrow> remove_error env p = None
      \<longrightarrow> files (snd (analyze env (Some f) w)) p = None"
    by simp
qed

theorem analyze_image_failure_is_text_witness:
  "analyze_image example_env (Some ''/tmp/page_1_tmp1.png'') HEALTH_SUMMARY_PROMPT pages_world
     = ustr ''Error: Could not analyze report. API issue: 503 UNAVAILABLE''
   \<and> (\<exists>b64. fst (analyze example_env (Some report_pdf) empty_world) =
         Inr (Render_results
           [(''health_summary'', ustr ''Error: Could not analyze report. API issue: 503 UNAVAILABLE''),
            (''glance_parameters'', ustr ''Error: Could not analyze report. API issue: 503 UNAVAILABLE''),
            (''potential_risks'', ustr ''Error: Could not analyze report. API issue: 503 UNAVAILABLE''),
            (''diet_recommendations'', ustr ''Error: Could not analyze report. API issue: 503 UNAVAILABLE''),
            (''consolidated_guidance'', ustr ''Error: Could not analyze report. API issue: 503 UNAVAILABLE''),
            (''final_summary'', ustr ''Error: Could not analyze report. API issue: 503 UNAVAILABLE'')]
           b64))
   \<and> (\<forall>p. files (snd (analyze example_env (Some report_pdf) empty_world)) p = None)"
proof -
  let ?e = "Exn OtherException (ustr ''503 UNAVAILABLE'')"
  have io: "Image_open pages_world ''/tmp/page_1_tmp1.png'' = Inr white_page"
    by (simp add: Image_open_def pages_world_simps)
  have gc: "generate_content example_env white_page HEALTH_SUMMARY_PROMPT = Inl ?e"
    by (simp add: example_simps)
  have h: "filename report_pdf \<noteq> [] \<and> (\<forall>p. write_error example_env p = None)
        \<and> remove_error example_env (os_path_join (UPLOAD_FOLDER example_env)
              (candidate_names example_env (names_drawn empty_world) @ ''.pdf'')) = None
        \<and> convert_from_path example_env (content report_pdf) = Inr [white_page, grey_page]
        \<and> [white_page, grey_page] \<noteq> []
        \<and> (\<forall>img pr. generate_content example_env img pr = Inl ((\<lambda>pr. ?e) pr))"
    by (simp add: example_simps)
  note a = analyze_image_failure_is_text[where w = pages_world and p = "''/tmp/page_1_tmp1.png''"
      and img = white_page and env = example_env and pr = HEALTH_SUMMARY_PROMPT and e = ?e,
      THEN conjunct1, rule_format, OF conjI[OF io gc]]
  note b = analyze_image_failure_is_text[where env = example_env and f = report_pdf
      and images = "[white_page, grey_page]" and fault = "\<lambda>pr. ?e" and w = empty_world,
      THEN conjunct2, THEN conjunct2, rule_format, OF h]
  have 1: "analyze_image example_env (Some ''/tmp/page_1_tmp1.png'') HEALTH_SUMMARY_PROMPT pages_world
     = ustr ''Error: Could not analyze report. API issue: 503 UNAVAILABLE''"
    using a by (simp add: ustr_def)
  have 2: "\<exists>b64. fst (analyze example_env (Some report_pdf) empty_world) =
         Inr (Render_results
           [(''health_summary'', ustr ''Error: Could not analyze report. API issue: 503 UNAVAILABLE''),
            (''glance_parameters'', ustr ''Error: Could not analyze report. API issue: 503 UNAVAILABLE''),
            (''potential_risks'', ustr ''Error: Could not analyze report. API issue: 503 UNAVAILABLE''),
            (''diet_recommendations'', ustr ''Error: Could not analyze report. API issue: 503 UNAVAILABLE''),
            (''consolidated_guidance'', ustr ''Error: Could not analyze report. API issue: 503 UNAVAILABLE''),
            (''final_summary'', ustr ''Error: Could not analyze report. API issue: 503 UNAVAILABLE'')]
           b64)"
    using b[THEN conjunct1] by (simp add: ustr_def)
  have 3: "\<forall>p. files (snd (analyze example_env (Some report_pdf) empty_world)) p = None"
    using b[THEN conjunct2] by (simp add: example_simps)
  from 1 2 3 show ?thesis by blast
qed

subsection \<open>The route: pages saved before \<^verbatim>\<open>pdf_to_images\<close> raises\<close>

lemma disk_full_env_more_simps:
  "remove_error disk_full_env p = None" "failed_write_leaves disk_full_env p = None"
  by (simp_all add: disk_full_env_def example_env_def)

lemma page_path_not_temp_pdf:
  "os_path_join folder (page_file_name i n) \<noteq> os_path_join folder (m @ ''.pdf'')"
  using page_path_png[of folder i n] temp_pdf_not_png[of folder m] by metis

text \<open>
  Claim C1 at a request that fails after a page was saved.  The document has two pages or
  more, the first page is saved and saving the second raises.  The exception leaves
  \<^verbatim>\<open>pdf_to_images\<close>, whose list \<^verbatim>\<open>image_paths\<close> is lost with it; in \<^verbatim>\<open>analyze\<close> the list
  \<^verbatim>\<open>temp_paths\<close> is still empty, \<^verbatim>\<open>cleanup_temp_files\<close> removes nothing, and the error page
  is returned: the file of the first page is on disk, and \<^verbatim>\<open>os.remove\<close> was called for the
  temporary PDF only.
\<close>

theorem analyze_leaves_saved_page:
  assumes "filename f \<noteq> []"
    and "write_error env (os_path_join (UPLOAD_FOLDER env)
           (candidate_names env (names_drawn w) @ ''.pdf'')) = None"
    and "remove_error env (os_path_join (UPLOAD_FOLDER env)
           (candidate_names env (names_drawn w) @ ''.pdf'')) = None"
    and "convert_from_path env (content f) = Inr (im1 # im2 # rest)"
    and "write_error env (os_path_join (UPLOAD_FOLDER env)
           (page_file_name 0 (candidate_names env (names_drawn w + 1)))) = None"
    and "write_error env (os_path_join (UPLOAD_FOLDER env)
           (page_file_name 1 (candidate_names env (names_drawn w + 2)))) = Some e"
  shows "fst (analyze env (Some f) w)
       = Inr (Render_error (ustr ''An error occurred during processing: '' @ str_exn e))
     \<and> files (snd (analyze env (Some f) w))
         (os_path_join (UPLOAD_FOLDER env)
            (page_file_name 0 (candidate_names env (names_drawn w + 1))))
       = Some (Png im1)
     \<and> removed (snd (analyze env (Some f) w))
       = removed w @ [os_path_join (UPLOAD_FOLDER env)
                        (candidate_names env (names_drawn w) @ ''.pdf'')]"
proof -
  define F where "F = UPLOAD_FOLDER env"
  define tp where "tp = os_path_join F (candidate_names env (names_drawn w) @ ''.pdf'')"
  define p1 where "p1 = os_path_join F (page_file_name 0 (candidate_names env (Suc (names_drawn w))))"
  define p2 where "p2 = os_path_join F (page_file_name (Suc 0) (candidate_names env (Suc (Suc (names_drawn w)))))"
  define wa where "wa = w\<lparr>names_drawn := Suc (names_drawn w), files := (files w)(tp \<mapsto> Raw (content f))\<rparr>"
  define wb where "wb = wa\<lparr>names_drawn := Suc (names_drawn wa), files := (files wa)(p1 \<mapsto> Png im1)\<rparr>"
  define wc where "wc = (case failed_write_leaves env p2 of
        None \<Rightarrow> wb\<lparr>names_drawn := Suc (names_drawn wb)\<rparr>
      | Some left \<Rightarrow> wb\<lparr>names_drawn := Suc (names_drawn wb), files := (files wb)(p2 \<mapsto> left)\<rparr>)"
  have f: "filename f \<noteq> []" by fact
  have wr: "write_error env (os_path_join F (candidate_names env (names_drawn w) @ ''.pdf'')) = None"
    using assms(2) by (simp add: F_def)
  have rm: "remove_error env tp = None" using assms(3) by (simp add: tp_def F_def)
  have cv: "convert_from_path env (content f) = Inr (im1 # im2 # rest)" by fact
  have w1: "write_error env p1 = None" using assms(5) by (simp add: p1_def F_def)
  have w2: "write_error env p2 = Some e" using assms(6) by (simp add: p2_def F_def numeral_2_eq_2)
  have nda: "names_drawn wa = Suc (names_drawn w)" by (simp add: wa_def)
  have ndb: "names_drawn wb = Suc (Suc (names_drawn w))" by (simp add: wb_def wa_def)
  have p2': "os_path_join F (page_file_name (Suc 0) (candidate_names env (names_drawn wb))) = p2"
    by (simp add: p2_def ndb)
  have s2: "save_pages env F (Suc 0) (im2 # rest) [p1] wb = (Inl e, wc)"
    unfolding save_pages_Cons[of env F "Suc 0" im2 rest "[p1]" wb] p2' wc_def
    using w2 by simp
  have p1': "os_path_join F (page_file_name 0 (candidate_names env (names_drawn wa))) = p1"
    by (simp add: p1_def nda)
  have s1: "save_pages env F 0 (im1 # im2 # rest) [] wa = (Inl e, wc)"
    unfolding save_pages_Cons[of env F 0 im1 "im2 # rest" "[]" wa] p1'
    using w1 s2 by (simp add: wb_def)
  have "files wa tp = Some (Raw (content f))" by (simp add: wa_def)
  from rasterize_body_read[OF this, of env F] cv s1
  have rb: "rasterize_body env F tp wa = (Inl e, wc)" by simp
  have pdf: "pdf_to_images env (Some f) F w
      = (Inl e, wc\<lparr>removed := removed w @ [tp], files := (files wc)(tp := None)\<rparr>)"
    using pdf_to_images_written(1)[OF f wr] rm rb
    by (simp add: tp_def[symmetric] wa_def[symmetric])
  define wd where "wd = wc\<lparr>removed := removed w @ [tp], files := (files wc)(tp := None)\<rparr>"
  have body: "analyze_body env (Some f) w = (Inl e, [], wd)"
    using pdf by (simp add: analyze_body_def F_def[symmetric] wd_def)
  have res: "analyze env (Some f) w
      = (Inr (Render_error (ustr ''An error occurred during processing: '' @ str_exn e)), wd)"
    using f by (simp add: analyze_def body Let_def)
  have d12: "p1 \<noteq> p2"
  proof
    assume "p1 = p2"
    then have "(0 :: nat) = Suc 0" unfolding p1_def p2_def by (rule page_path_inj)
    then show False by simp
  qed
  have d1t: "p1 \<noteq> tp" unfolding p1_def tp_def by (rule page_path_not_temp_pdf)
  have "files wc p1 = files wb p1"
    using d12 by (cases "failed_write_leaves env p2") (simp_all add: wc_def)
  then have "files wd p1 = Some (Png im1)" using d1t by (simp add: wd_def wb_def)
  moreover have "removed wd = removed w @ [tp]" by (simp add: wd_def)
  ultimately show ?thesis
    using res by (simp add: p1_def tp_def F_def)
qed

theorem analyze_leaves_saved_page_witness:
  "fst (analyze disk_full_env (Some report_pdf) empty_world)
     = Inr (Render_error (ustr ''An error occurred during processing: No space left on device''))
   \<and> files (snd (analyze disk_full_env (Some report_pdf) empty_world)) ''/tmp/page_1_tmp1.png''
     = Some (Png white_page)
   \<and> removed (snd (analyze disk_full_env (Some report_pdf) empty_world)) = [''/tmp/tmp0.pdf'']"
proof -
  have 1: "filename report_pdf \<noteq> []" by (simp add: example_simps)
  have 2: "write_error disk_full_env (os_path_join (UPLOAD_FOLDER disk_full_env)
           (candidate_names disk_full_env (names_drawn empty_world) @ ''.pdf'')) = None"
    by (simp add: disk_full_env_simps example_simps path_simps)
  have 3: "remove_error disk_full_env (os_path_join (UPLOAD_FOLDER disk_full_env)
           (candidate_names disk_full_env (names_drawn empty_world) @ ''.pdf'')) = None"
    by (simp add: disk_full_env_more_simps)
  have 4: "convert_from_path disk_full_env (content report_pdf)
      = Inr (white_page # grey_page # [])"
    by (simp add: disk_full_env_simps example_simps)
  have 5: "write_error disk_full_env (os_path_join (UPLOAD_FOLDER disk_full_env)
           (page_file_name 0 (candidate_names disk_full_env (names_drawn empty_world + 1)))) = None"
    by (simp add: disk_full_env_simps example_simps path_simps)
  have 6: "write_error disk_full_env (os_path_join (UPLOAD_FOLDER disk_full_env)
           (page_file_name 1 (candidate_names disk_full_env (names_drawn empty_world + 2))))
      = Some (Exn OSError (ustr ''No space left on device''))"
    by (simp add: disk_full_env_simps example_simps path_simps)
  from analyze_leaves_saved_page[OF 1 2 3 4 5 6]
  show ?thesis by (simp add: disk_full_env_simps example_simps path_simps ustr_def)
qed

end
